theory Spec2Isabelle
  imports Main
begin

section \<open>Python strings\<close>

text \<open>
  A Python \<open>str\<close> is a sequence of Unicode code points. The sanitizer replaces code
  points beyond Latin-1 and \<open>str.split\<close> knows Unicode white space, so a string is
  modelled as a list of code points (\<open>nat\<close>), not as a list of 8-bit \<open>char\<close>.
  \<open>str\<close> turns an ASCII literal into such a list. The text \<open>str(e)\<close> of an exception
  stands for the exception; audio and image data are lists of byte values.
\<close>

type_synonym pystr = "nat list"
type_synonym bytes = "nat list"
type_synonym pyexn = pystr

definition str :: "string \<Rightarrow> pystr" where
  "str s = map of_char s"

text \<open>Truthiness of an optional sequence: \<open>None\<close>, \<open>""\<close> and \<open>b""\<close> are false.\<close>

fun truthy :: "'a list option \<Rightarrow> bool" where
  "truthy None = False"
| "truthy (Some x) = (x \<noteq> [])"

text \<open>
  \<open>c.isspace()\<close>: the white space that \<open>str.split()\<close> and \<open>str.strip()\<close> recognise
  (U+0009..U+000D, U+001C..U+0020, U+0085, U+00A0, U+1680, U+2000..U+200A, U+2028, U+2029,
  U+202F, U+205F, U+3000).
\<close>

definition isspace :: "nat \<Rightarrow> bool" where
  "isspace c = ((9 \<le> c \<and> c \<le> 13) \<or> (28 \<le> c \<and> c \<le> 32) \<or> c = 133 \<or> c = 160
     \<or> c = 5760 \<or> (8192 \<le> c \<and> c \<le> 8202) \<or> c = 8232 \<or> c = 8233 \<or> c = 8239
     \<or> c = 8287 \<or> c = 12288)"

text \<open>\<open>s.startswith(p)\<close> and \<open>sub in s\<close>.\<close>

fun startswith :: "'a list \<Rightarrow> 'a list \<Rightarrow> bool" where
  "startswith s [] = True"
| "startswith [] (p # ps) = False"
| "startswith (c # cs) (p # ps) = (c = p \<and> startswith cs ps)"

fun contains :: "'a list \<Rightarrow> 'a list \<Rightarrow> bool" where
  "contains sub [] = (sub = [])"
| "contains sub (c # cs) = (startswith (c # cs) sub \<or> contains sub cs)"

text \<open>
  \<open>s.replace(old, new)\<close>: every occurrence of \<open>old\<close>, found from the left and not
  overlapping, becomes \<open>new\<close>. With an empty \<open>old\<close> Python puts \<open>new\<close> before every
  character and at the end.
\<close>

fun replace :: "'a list \<Rightarrow> 'a list \<Rightarrow> 'a list \<Rightarrow> 'a list" where
  "replace [] new s = new @ concat (map (\<lambda>c. c # new) s)"
| "replace (p # ps) new [] = []"
| "replace (p # ps) new (c # cs) =
     (if startswith (c # cs) (p # ps)
      then new @ replace (p # ps) new (drop (length (p # ps)) (c # cs))
      else c # replace (p # ps) new cs)"

text \<open>
  \<open>s.split()\<close>: the maximal runs of characters that are not white space; \<open>split_from w\<close>
  carries the word read so far.
\<close>

fun split_from :: "pystr \<Rightarrow> pystr \<Rightarrow> pystr list" where
  "split_from w [] = (if w = [] then [] else [w])"
| "split_from w (c # cs) =
     (if isspace c then (if w = [] then split_from [] cs else w # split_from [] cs)
      else split_from (w @ [c]) cs)"

definition split :: "pystr \<Rightarrow> pystr list" where
  "split s = split_from [] s"

text \<open>
  A word, as \<open>split\<close> returns them: not empty and without white space (used to state
  facts about \<open>split\<close>, not by the program).
\<close>

definition word :: "pystr \<Rightarrow> bool" where
  "word w = (w \<noteq> [] \<and> list_all (\<lambda>c. \<not> isspace c) w)"

text \<open>\<open>sep.join(ws)\<close> and \<open>s.strip()\<close>.\<close>

fun join :: "'a list \<Rightarrow> 'a list list \<Rightarrow> 'a list" where
  "join sep [] = []"
| "join sep [w] = w"
| "join sep (w # v # ws) = w @ sep @ join sep (v # ws)"

definition strip :: "pystr \<Rightarrow> pystr" where
  "strip s = rev (dropWhile isspace (rev (dropWhile isspace s)))"

text \<open>
  The slices \<open>s[i:i+n]\<close> for \<open>i in range(0, len(s), n)\<close>. The source's step is the
  constant 4500; a zero step, on which \<open>range\<close> would raise, does not occur.
\<close>

fun slices :: "nat \<Rightarrow> 'a list \<Rightarrow> 'a list list" where
  "slices n [] = []"
| "slices n (c # cs) =
     (if n = 0 then [] else take n (c # cs) # slices n (drop n (c # cs)))"

section \<open>The text sanitizer\<close>

text \<open>
  \<open>clean_text_for_speech\<close> is a chain of \<open>text = text.replace(old, new)\<close> calls followed by
  \<open>' '.join(text.split())\<close>. \<open>substitutions\<close> lists the calls in the order of the source
  (lines 122 to 136); \<open>replace_all\<close> runs them one after the other. The characters given
  by code point are the line feed, the backquote and U+2248, U+221D, U+00D7, U+00F7,
  U+00B0. Every call site passes a \<open>str\<close>, so the \<open>isinstance\<close> branch, which only turns
  another object into its \<open>str()\<close> form before the same chain, is the identity here.
\<close>

definition substitutions :: "(pystr \<times> pystr) list" where
  "substitutions =
    [([10], str '' ''), (str ''  '', str '' ''),
     (str ''**'', []), (str ''*'', []),
     ([96], []), (str ''~'', []),
     (str ''('', []), (str '')'', []),
     (str ''['', []), (str '']'', []),
     (str ''{'', []), (str ''}'', []),
     (str ''&'', str '' and ''),
     (str ''%'', str '' percent ''),
     (str ''='', str '' equals ''),
     ([8776], str '' approximately ''),
     ([8733], str '' proportional to ''),
     ([215], str '' multiplied by ''),
     ([247], str '' divided by ''),
     ([176], str '' degrees ''),
     (str ''+'', str '' plus ''), (str ''-'', str '' minus '')]"

fun replace_all :: "(pystr \<times> pystr) list \<Rightarrow> pystr \<Rightarrow> pystr" where
  "replace_all [] text = text"
| "replace_all ((old, new) # rs) text = replace_all rs (replace old new text)"

definition clean_text_for_speech :: "pystr \<Rightarrow> pystr" where
  "clean_text_for_speech text = join (str '' '') (split (replace_all substitutions text))"

section \<open>The external services\<close>

text \<open>
  The three network services and the image decoder are outside the program. An \<open>env\<close>
  fixes what each of them answers during one run of the script: an exception (\<open>Inl\<close>)
  or a value (\<open>Inr\<close>). Nothing is assumed about the answers. A response of the model
  has its \<open>parts\<close> (present or not), its prompt feedback (block reason and safety ratings
  as printed, or \<open>None\<close> when reading them raises) and its \<open>text\<close> property
  (\<open>response_text\<close>), which may raise. The translator answers per call, numbered
  from 0, so that two calls on equal chunks may differ.
\<close>

datatype part = PText pystr | PImage bytes

datatype gmodel = GenerativeModel pystr

record response =
  parts :: bool
  prompt_feedback :: "(pystr \<times> pystr) option"
  response_text :: "pyexn + pystr"

record env =
  GOOGLE_API_KEY :: "pystr option"
  genai_configure :: "pystr \<Rightarrow> pyexn option"
  new_model :: "pystr \<Rightarrow> pyexn + gmodel"
  image_open :: "bytes \<Rightarrow> pyexn + bytes"
  generate_content :: "gmodel \<Rightarrow> part list \<Rightarrow> pyexn + response"
  google_translator :: "pystr \<Rightarrow> pyexn + (nat \<Rightarrow> pystr \<Rightarrow> pyexn + pystr)"
  gtts :: "pystr \<Rightarrow> pystr \<Rightarrow> pyexn + bytes"

text \<open>
  The calls a run makes to the services are recorded, in order, as events; the functions
  below return them beside their result. The events are the only addition to what the
  source computes. \<open>log_message\<close>, \<open>st.error\<close> and \<open>st.warning\<close> write to the log and
  the page only, which nothing modelled here reads, and are left out.
\<close>

datatype event =
  ConfigureCall pystr
| GenerateCall "part list"
| TranslateCall pystr pystr
| SpeechCall pystr pystr

fun is_configure_call :: "event \<Rightarrow> bool" where
  "is_configure_call (ConfigureCall key) = True"
| "is_configure_call e = False"

fun is_generate_call :: "event \<Rightarrow> bool" where
  "is_generate_call (GenerateCall content) = True"
| "is_generate_call e = False"

fun is_translate_call :: "event \<Rightarrow> bool" where
  "is_translate_call (TranslateCall target chunk) = True"
| "is_translate_call e = False"

fun is_speech_call :: "event \<Rightarrow> bool" where
  "is_speech_call (SpeechCall txt lang) = True"
| "is_speech_call e = False"

section \<open>Session state\<close>

text \<open>
  The keys of \<open>st.session_state\<close> that the modelled code reads or writes: those of
  \<open>default_values\<close> (without the log and the playback speed), the flag
  \<open>_api_key_error_logged\<close> and the two text widgets.
\<close>

record session =
  processing :: bool
  current_audio_data :: "bytes option"
  current_text_to_speak :: pystr
  last_explanation :: pystr
  last_uploaded_image :: "bytes option"
  action_trigger :: "pystr option"
  tts_lang_code :: pystr
  translate_lang_code :: "pystr option"
  translate_lang_name :: pystr
  gemini_model :: "gmodel option"
  api_key_configured :: bool
  api_key_error_logged :: bool
  pasted_text_area :: pystr
  feedback_input :: pystr

definition default_values :: session where
  "default_values =
     \<lparr>processing = False, current_audio_data = None, current_text_to_speak = [],
      last_explanation = [], last_uploaded_image = None, action_trigger = None,
      tts_lang_code = str ''en'', translate_lang_code = None,
      translate_lang_name = str ''None (Original Language)'', gemini_model = None,
      api_key_configured = False, api_key_error_logged = False,
      pasted_text_area = [], feedback_input = []\<rparr>"

section \<open>Configuring the model\<close>

text \<open>
  \<open>configure_gemini\<close> (lines 73 to 112): a cached model of a configured session is
  returned as it is; a missing key or the placeholder gives \<open>None\<close>; otherwise
  \<open>genai.configure\<close> and \<open>genai.GenerativeModel\<close> run inside a \<open>try\<close>, and any exception
  clears the cache and gives \<open>None\<close>.
\<close>

definition configure_gemini :: "env \<Rightarrow> session \<Rightarrow> gmodel option \<times> session \<times> event list" where
  "configure_gemini E s =
     (case (gemini_model s, api_key_configured s) of
        (Some m, True) \<Rightarrow> (Some m, s, [])
      | _ \<Rightarrow>
        (case GOOGLE_API_KEY E of
           None \<Rightarrow> (None, s\<lparr>api_key_error_logged := True, api_key_configured := False\<rparr>, [])
         | Some key \<Rightarrow>
             if key = [] \<or> key = str ''YOUR_API_KEY_HERE''
             then (None, s\<lparr>api_key_error_logged := True, api_key_configured := False\<rparr>, [])
             else
               let s1 = s\<lparr>api_key_error_logged := False\<rparr>;
                   failed = s1\<lparr>api_key_configured := False, gemini_model := None\<rparr>
               in case genai_configure E key of
                    Some e \<Rightarrow> (None, failed, [ConfigureCall key])
                  | None \<Rightarrow>
                      (case new_model E (str ''gemini-2.0-flash'') of
                         Inl e \<Rightarrow> (None, failed, [ConfigureCall key])
                       | Inr model \<Rightarrow>
                           (Some model,
                            s1\<lparr>gemini_model := Some model, api_key_configured := True\<rparr>,
                            [ConfigureCall key]))))"

text \<open>
  The script runs again on every interaction, and the key and the services may differ
  from one run to the next: \<open>configure_calls\<close> is a sequence of calls of
  \<open>configure_gemini\<close>, one per environment. \<open>usable_key\<close> is the test of line 80 passed,
  \<open>setup_fails\<close> an exception inside the \<open>try\<close> of line 93, and \<open>unconfigured\<close> the
  test of line 76 failed.
\<close>

fun configure_calls :: "env list \<Rightarrow> session \<Rightarrow> session \<times> event list" where
  "configure_calls [] s = (s, [])"
| "configure_calls (E # Es) s =
     (case configure_gemini E s of
        (m, s1, ev) \<Rightarrow> (case configure_calls Es s1 of (s2, ev2) \<Rightarrow> (s2, ev @ ev2)))"

definition usable_key :: "env \<Rightarrow> bool" where
  "usable_key E =
     (case GOOGLE_API_KEY E of
        None \<Rightarrow> False
      | Some key \<Rightarrow> key \<noteq> [] \<and> key \<noteq> str ''YOUR_API_KEY_HERE'')"

definition setup_fails :: "env \<Rightarrow> bool" where
  "setup_fails E =
     (case GOOGLE_API_KEY E of
        None \<Rightarrow> False
      | Some key \<Rightarrow>
          (case genai_configure E key of
             Some e \<Rightarrow> True
           | None \<Rightarrow> (case new_model E (str ''gemini-2.0-flash'') of Inl e \<Rightarrow> True | Inr m \<Rightarrow> False)))"

definition unconfigured :: "session \<Rightarrow> bool" where
  "unconfigured s = (case (gemini_model s, api_key_configured s) of (Some m, True) \<Rightarrow> False | _ \<Rightarrow> True)"

definition attempt :: "env \<Rightarrow> event" where
  "attempt E = ConfigureCall (case GOOGLE_API_KEY E of Some key \<Rightarrow> key | None \<Rightarrow> [])"

section \<open>The adapters\<close>

text \<open>\<open>generate_speech\<close> (lines 140 to 156).\<close>

definition generate_speech :: "env \<Rightarrow> pystr \<Rightarrow> pystr \<Rightarrow> bytes option \<times> event list" where
  "generate_speech E txt lang_code =
     (if txt = [] then (None, [])
      else case gtts E txt lang_code of
             Inl e \<Rightarrow> (None, [SpeechCall txt lang_code])
           | Inr audio \<Rightarrow> (Some audio, [SpeechCall txt lang_code]))"

text \<open>
  The loop of \<open>translate_if_needed\<close> (lines 172 to 175): \<open>i\<close> numbers the call,
  \<open>translated_text\<close> is the accumulator. An exception ends the loop.
\<close>

fun translate_chunks ::
  "(nat \<Rightarrow> pystr \<Rightarrow> pyexn + pystr) \<Rightarrow> pystr \<Rightarrow> nat \<Rightarrow> pystr list \<Rightarrow> pystr
     \<Rightarrow> (pyexn + pystr) \<times> event list" where
  "translate_chunks translate target i [] translated_text = (Inr translated_text, [])"
| "translate_chunks translate target i (chunk # chunks) translated_text =
     (case translate i chunk of
        Inl e \<Rightarrow> (Inl e, [TranslateCall target chunk])
      | Inr t \<Rightarrow>
          (case translate_chunks translate target (Suc i) chunks (translated_text @ t @ str '' '') of
             (r, ev) \<Rightarrow> (r, TranslateCall target chunk # ev)))"

text \<open>
  \<open>translate_if_needed\<close> (lines 158 to 181). \<open>not target_lang_code\<close> holds for \<open>None\<close>
  and for the empty string. The \<open>try\<close> covers the construction of the translator and
  the loop; its handler returns the text it was given.
\<close>

definition translate_if_needed :: "env \<Rightarrow> pystr \<Rightarrow> pystr option \<Rightarrow> pystr \<Rightarrow> pystr \<times> event list" where
  "translate_if_needed E txt target_lang_code target_lang_name =
     (case target_lang_code of
        None \<Rightarrow> (txt, [])
      | Some target \<Rightarrow>
          if target = [] \<or> target = str ''en'' then (txt, [])
          else if txt = [] then ([], [])
          else
            (case google_translator E target of
               Inl e \<Rightarrow> (txt, [])
             | Inr translate \<Rightarrow>
                 (case translate_chunks translate target 0 (slices 4500 txt) [] of
                    (Inl e, ev) \<Rightarrow> (txt, ev)
                  | (Inr translated_text, ev) \<Rightarrow> (strip translated_text, ev))))"

text \<open>
  The translation service fails on a text when the translator cannot be constructed or
  one of the calls of the loop raises.
\<close>

definition translation_fails :: "env \<Rightarrow> pystr \<Rightarrow> pystr \<Rightarrow> bool" where
  "translation_fails E target txt =
     (case google_translator E target of
        Inl e \<Rightarrow> True
      | Inr translate \<Rightarrow> list_ex (\<lambda>(i, chunk). isl (translate i chunk)) (enumerate 0 (slices 4500 txt)))"

text \<open>
  \<open>get_gemini_response\<close> (lines 183 to 230). \<open>classify\<close> is the reading of the response
  (lines 213 to 224), \<open>gemini_try\<close> the body of the \<open>try\<close> (lines 193 to 224): an
  \<open>Inl\<close> is an exception that reaches the handler of line 226, which turns it into a
  string. The result type keeps the exception case, so that returning a string is a
  property to prove.
\<close>

definition error_marker :: pystr where
  "error_marker = str ''Error:''"

definition classify :: "response \<Rightarrow> pyexn + pystr" where
  "classify r =
     (if \<not> parts r then
        (case prompt_feedback r of
           Some (block_reason, safety_ratings) \<Rightarrow>
             Inr (str ''Error: AI response blocked. Reason: '' @ block_reason
                  @ str ''. Ratings: '' @ safety_ratings)
         | None \<Rightarrow>
             Inr (str ''Error: AI generated an empty response (possibly due to safety filters or content restrictions).''))
      else (case response_text r of Inl e \<Rightarrow> Inl e | Inr t \<Rightarrow> Inr (strip t)))"

definition generate :: "env \<Rightarrow> gmodel \<Rightarrow> part list \<Rightarrow> (pyexn + pystr) \<times> event list" where
  "generate E model content =
     (case generate_content E model content of
        Inl e \<Rightarrow> (Inl e, [GenerateCall content])
      | Inr r \<Rightarrow> (classify r, [GenerateCall content]))"

text \<open>
  \<open>request_content\<close> (lines 193 to 206) is the list \<open>content\<close> that the call sends:
  the prompt, then the opened image or the text. \<open>Inl\<close> is the string that line 202
  returns at once when the image cannot be opened.
\<close>

definition request_content ::
  "env \<Rightarrow> pystr \<Rightarrow> bytes option \<Rightarrow> pystr option \<Rightarrow> pystr + part list" where
  "request_content E prompt image_bytes text_input =
     (if truthy image_bytes then
        (case image_open E (case image_bytes of Some b \<Rightarrow> b | None \<Rightarrow> []) of
           Inl img_err \<Rightarrow> Inl (str ''Error: Could not read image data.'')
         | Inr img \<Rightarrow> Inr [PText prompt, PImage img])
      else if truthy text_input then
        Inr [PText prompt, PText (case text_input of Some t \<Rightarrow> t | None \<Rightarrow> [])]
      else Inr [PText prompt])"

definition gemini_try ::
  "env \<Rightarrow> gmodel \<Rightarrow> pystr \<Rightarrow> bytes option \<Rightarrow> pystr option \<Rightarrow> (pyexn + pystr) \<times> event list" where
  "gemini_try E model prompt image_bytes text_input =
     (case request_content E prompt image_bytes text_input of
        Inl early_return \<Rightarrow> (Inr early_return, [])
      | Inr content \<Rightarrow> generate E model content)"

definition get_gemini_response ::
  "env \<Rightarrow> session \<Rightarrow> pystr \<Rightarrow> bytes option \<Rightarrow> pystr option
     \<Rightarrow> (pyexn + pystr) \<times> session \<times> event list" where
  "get_gemini_response E s prompt image_bytes text_input =
     (case configure_gemini E s of
        (None, s1, ev) \<Rightarrow>
          (Inr (str ''Error: Gemini model failed to configure. Check API Key and logs.''), s1, ev)
      | (Some model, s1, ev) \<Rightarrow>
          (case gemini_try E model prompt image_bytes text_input of
             (Inl e, ev2) \<Rightarrow>
               (Inr (str ''Error: Could not get response from AI during generation. Details: '' @ e),
                s1, ev @ ev2)
           | (Inr r, ev2) \<Rightarrow> (Inr r, s1, ev @ ev2)))"

section \<open>The prompts\<close>

text \<open>
  \<open>EXPLAIN_PROMPT_BASE\<close> and \<open>READ_PROMPT_IMAGE\<close> are sent as they are.
  \<open>FOLLOW_UP_PROMPT\<close> is a template for \<open>str.format\<close>, given here as \<open>format\<close> parses it:
  literal text, the replacement fields \<open>{previous_explanation}\<close> and \<open>{user_feedback}\<close>,
  and the field \<open>{}\<close> that stands in rule 5 of the template ("braces {}"), which
  \<open>format\<close> reads as the positional argument 0. Characters that cannot stand in a
  literal here are given by code point.
\<close>

datatype segment = Lit pystr | Field pystr | AutoField

definition EXPLAIN_PROMPT_BASE :: pystr where
  "EXPLAIN_PROMPT_BASE =
     [10]
     @ str ''You are a helpful teacher explaining concepts verbally. Your response will be directly converted to text-to-speech.'' @ [10]
     @ [10]
     @ str ''Analyze the provided content (image or text) and explain it clearly and concisely.'' @ [10]
     @ [10]
     @ [42, 42] @ str ''Crucial Formatting Rules for TTS:'' @ [42, 42, 10]
     @ str ''1.  '' @ [42, 42] @ str ''Speak Naturally:'' @ [42, 42] @ str '' Use plain, conversational language ONLY.'' @ [10]
     @ str ''2.  '' @ [42, 42] @ str ''No Markdown/Special Chars:'' @ [42, 42] @ str '' Absolutely NO markdown ('' @ [42] @ str '', '' @ [42, 42] @ str '', ~, '' @ [96] @ str '', #, etc.).'' @ [10]
     @ str ''3.  '' @ [42, 42] @ str ''Spell Out Symbols:'' @ [42, 42] @ str '' Write '' @ [39] @ str ''plus'' @ [39] @ str '' not +, '' @ [39] @ str ''equals'' @ [39] @ str '' not =, '' @ [39] @ str ''percent'' @ [39] @ str '' not %, '' @ [39] @ str ''degrees'' @ [39] @ str '' not '' @ [176] @ str '', '' @ [39] @ str ''multiplied by'' @ [39] @ str '' not '' @ [42] @ str '', '' @ [39] @ str ''divided by'' @ [39] @ str '' not /.'' @ [10]
     @ str ''4.  '' @ [42, 42] @ str ''Numbers:'' @ [42, 42] @ str '' Write '' @ [39] @ str ''one hundred twenty three'' @ [39] @ str '' or '' @ [39] @ str ''123'' @ [39] @ str '', but ensure surrounding text makes it speakable (e.g., '' @ [39] @ str ''100 percent'' @ [39] @ str '').'' @ [10]
     @ str ''5.  '' @ [42, 42] @ str ''No Grouping Symbols:'' @ [42, 42] @ str '' Avoid parentheses (), brackets [], braces '' @ [123, 125] @ str ''. Rephrase sentences if necessary.'' @ [10]
     @ str ''6.  '' @ [42, 42] @ str ''Simple Sentences:'' @ [42, 42] @ str '' Break down complex ideas.'' @ [10]
     @ str ''7.  '' @ [42, 42] @ str ''Abbreviations:'' @ [42, 42] @ str '' Spell out acronyms or abbreviations the first time (e.g., '' @ [39] @ str ''National Aeronautics and Space Administration, NASA'' @ [39] @ str '').'' @ [10]
     @ str ''8.  '' @ [42, 42] @ str ''Clarity First:'' @ [42, 42] @ str '' Ensure the final text flows well when read aloud.'' @ [10]
     @ [10]
     @ str ''Explain the core concepts or information present.'' @ [10]"

definition READ_PROMPT_IMAGE :: pystr where
  "READ_PROMPT_IMAGE =
     [10]
     @ str ''Examine this screenshot carefully. Identify and extract ONLY the most prominent or most recent text content.'' @ [10]
     @ [10]
     @ [42] @ str ''   If it'' @ [39] @ str ''s a chat, extract ONLY the latest message or turn.'' @ [10]
     @ [42] @ str ''   If it'' @ [39] @ str ''s an article or document, extract the main body text you see.'' @ [10]
     @ [42] @ str ''   If specific text is clearly highlighted or seems to be the focus, extract ONLY that highlighted text.'' @ [10]
     @ [10]
     @ [42, 42] @ str ''CRITICAL:'' @ [42, 42] @ str '' Return ONLY the extracted text. Do NOT add any commentary, descriptions, introductions, or formatting like quotes or labels. Just the raw text found. If no text is clear, return nothing.'' @ [10]"

definition FOLLOW_UP_PROMPT :: "segment list" where
  "FOLLOW_UP_PROMPT =
    [Lit ([10]
          @ str ''You are a helpful teacher explaining concepts verbally. Your response will be directly converted to text-to-speech.'' @ [10]
          @ [10]
          @ str ''The student was previously shown an explanation:'' @ [10]
          @ [34]),
     Field (str ''previous_explanation''),
     Lit ([34, 10]
          @ [10]
          @ str ''The student responded with:'' @ [10]
          @ [34]),
     Field (str ''user_feedback''),
     Lit ([34, 10]
          @ [10]
          @ str ''Address the student'' @ [39] @ str ''s feedback or question and provide a revised or clarified explanation based on their input.'' @ [10]
          @ [10]
          @ [42, 42] @ str ''Crucial Formatting Rules for TTS:'' @ [42, 42, 10]
          @ str ''1.  '' @ [42, 42] @ str ''Speak Naturally:'' @ [42, 42] @ str '' Use plain, conversational language ONLY.'' @ [10]
          @ str ''2.  '' @ [42, 42] @ str ''No Markdown/Special Chars:'' @ [42, 42] @ str '' Absolutely NO markdown ('' @ [42] @ str '', '' @ [42, 42] @ str '', ~, '' @ [96] @ str '', #, etc.).'' @ [10]
          @ str ''3.  '' @ [42, 42] @ str ''Spell Out Symbols:'' @ [42, 42] @ str '' Write '' @ [39] @ str ''plus'' @ [39] @ str '' not +, '' @ [39] @ str ''equals'' @ [39] @ str '' not =, '' @ [39] @ str ''percent'' @ [39] @ str '' not %, '' @ [39] @ str ''degrees'' @ [39] @ str '' not '' @ [176] @ str '', '' @ [39] @ str ''multiplied by'' @ [39] @ str '' not '' @ [42] @ str '', '' @ [39] @ str ''divided by'' @ [39] @ str '' not /.'' @ [10]
          @ str ''4.  '' @ [42, 42] @ str ''Numbers:'' @ [42, 42] @ str '' Write '' @ [39] @ str ''one hundred twenty three'' @ [39] @ str '' or '' @ [39] @ str ''123'' @ [39] @ str '', but ensure surrounding text makes it speakable (e.g., '' @ [39] @ str ''100 percent'' @ [39] @ str '').'' @ [10]
          @ str ''5.  '' @ [42, 42] @ str ''No Grouping Symbols:'' @ [42, 42] @ str '' Avoid parentheses (), brackets [], braces ''),
     AutoField,
     Lit (str ''. Rephrase sentences if necessary.'' @ [10]
          @ str ''6.  '' @ [42, 42] @ str ''Simple Sentences:'' @ [42, 42] @ str '' Break down complex ideas.'' @ [10]
          @ str ''7.  '' @ [42, 42] @ str ''Abbreviations:'' @ [42, 42] @ str '' Spell out acronyms or abbreviations the first time (e.g., '' @ [39] @ str ''National Aeronautics and Space Administration, NASA'' @ [39] @ str '').'' @ [10]
          @ str ''8.  '' @ [42, 42] @ str ''Clarity First:'' @ [42, 42] @ str '' Ensure the final text flows well when read aloud.'' @ [10])]"

text \<open>
  \<open>str.format\<close> called with keyword arguments and no positional argument: a named field takes its
  keyword (\<open>KeyError\<close> when there is none), and the first automatic field raises
  \<open>IndexError\<close>, since the tuple of positional arguments is empty.
\<close>

fun format_kwargs :: "segment list \<Rightarrow> (pystr \<times> pystr) list \<Rightarrow> pyexn + pystr" where
  "format_kwargs [] kwargs = Inr []"
| "format_kwargs (Lit t # segs) kwargs =
     (case format_kwargs segs kwargs of Inl e \<Rightarrow> Inl e | Inr r \<Rightarrow> Inr (t @ r))"
| "format_kwargs (Field name # segs) kwargs =
     (case map_of kwargs name of
        None \<Rightarrow> Inl ([39] @ name @ [39])
      | Some v \<Rightarrow> (case format_kwargs segs kwargs of Inl e \<Rightarrow> Inl e | Inr r \<Rightarrow> Inr (v @ r)))"
| "format_kwargs (AutoField # segs) kwargs =
     Inl (str ''Replacement index 0 out of range for positional args tuple'')"

section \<open>The action orchestrator\<close>

text \<open>
  The body of the \<open>try\<close> of the processing logic, in the three parts the source marks.
  Each part returns the session and the events beside its result, so that an exception
  (\<open>Inl\<close>) leaves the session as it was when the exception was raised.

  \<open>action_execution\<close> (lines 545 to 584) gives \<open>gemini_result\<close> and
  \<open>final_text_to_speak\<close>. When no branch matches, both keep their initial value \<open>""\<close>.
\<close>

definition action_execution ::
  "env \<Rightarrow> session \<Rightarrow> pystr \<Rightarrow> (pyexn + pystr option \<times> pystr) \<times> session \<times> event list" where
  "action_execution E s action =
     (if action = str ''explain_image'' then
        (if \<not> truthy (last_uploaded_image s)
         then (Inl (str ''No image data found for explanation.''), s, [])
         else (case get_gemini_response E s EXPLAIN_PROMPT_BASE (last_uploaded_image s) None of
                 (Inl e, s1, ev) \<Rightarrow> (Inl e, s1, ev)
               | (Inr r, s1, ev) \<Rightarrow> (Inr (Some r, []), s1, ev)))
      else if action = str ''read_image'' then
        (if \<not> truthy (last_uploaded_image s)
         then (Inl (str ''No image data found for reading.''), s, [])
         else (case get_gemini_response E s READ_PROMPT_IMAGE (last_uploaded_image s) None of
                 (Inl e, s1, ev) \<Rightarrow> (Inl e, s1, ev)
               | (Inr r, s1, ev) \<Rightarrow> (Inr (Some r, []), s1, ev)))
      else if action = str ''explain_text'' then
        (if pasted_text_area s = []
         then (Inl (str ''No pasted text found for explanation.''), s, [])
         else (case get_gemini_response E s EXPLAIN_PROMPT_BASE None (Some (pasted_text_area s)) of
                 (Inl e, s1, ev) \<Rightarrow> (Inl e, s1, ev)
               | (Inr r, s1, ev) \<Rightarrow> (Inr (Some r, []), s1, ev)))
      else if action = str ''read_text'' then
        (if pasted_text_area s = []
         then (Inl (str ''No pasted text found for reading.''), s, [])
         else
           let cleaned_text = join (str '' '') (split (pasted_text_area s));
               s1 = s\<lparr>last_explanation := []\<rparr>
           in case translate_if_needed E cleaned_text (translate_lang_code s1) (translate_lang_name s1) of
                (final_text_to_speak, ev) \<Rightarrow> (Inr (None, final_text_to_speak), s1, ev))
      else if action = str ''follow_up'' then
        (if feedback_input s = []
         then (Inl (str ''No follow-up text provided.''), s, [])
         else if last_explanation s = []
         then (Inl (str ''No previous explanation context found for follow-up.''), s, [])
         else (case format_kwargs FOLLOW_UP_PROMPT
                      [(str ''previous_explanation'', last_explanation s),
                       (str ''user_feedback'', feedback_input s)] of
                 Inl e \<Rightarrow> (Inl e, s, [])
               | Inr prompt \<Rightarrow>
                   (case get_gemini_response E s prompt None None of
                      (Inl e, s1, ev) \<Rightarrow> (Inl e, s1, ev)
                    | (Inr r, s1, ev) \<Rightarrow> (Inr (Some r, []), s1, ev))))
      else (Inr (Some [], []), s, []))"

text \<open>
  \<open>process_gemini_result\<close> (lines 587 to 603): the test for an error is
  \<open>"Error:" not in gemini_result\<close>.
\<close>

definition process_gemini_result ::
  "env \<Rightarrow> session \<Rightarrow> pystr \<Rightarrow> pystr option \<Rightarrow> pystr \<Rightarrow> pystr \<times> session \<times> event list" where
  "process_gemini_result E s action gemini_result final_text_to_speak =
     (case gemini_result of
        None \<Rightarrow> (final_text_to_speak, s, [])
      | Some r \<Rightarrow>
          if contains error_marker r then (r, s, [])
          else if action \<in> {str ''explain_image'', str ''explain_text'', str ''follow_up''} then
            let cleaned_explanation = clean_text_for_speech r;
                s1 = s\<lparr>last_explanation := cleaned_explanation\<rparr>
            in case translate_if_needed E cleaned_explanation (translate_lang_code s1) (translate_lang_name s1) of
                 (t, ev) \<Rightarrow> (t, s1, ev)
          else if action = str ''read_image'' then
            let cleaned_text = join (str '' '') (split r);
                s1 = s\<lparr>last_explanation := []\<rparr>
            in case translate_if_needed E cleaned_text (translate_lang_code s1) (translate_lang_name s1) of
                 (t, ev) \<Rightarrow> (t, s1, ev)
          else (final_text_to_speak, s, []))"

text \<open>
  \<open>translated E s t\<close> is the text that the call
  \<open>translate_if_needed(t, st.session_state.translate_lang_code, st.session_state.translate_lang_name)\<close>
  of lines 572, 593 and 598 returns.
\<close>

abbreviation translated :: "env \<Rightarrow> session \<Rightarrow> pystr \<Rightarrow> pystr" where
  "translated E s t \<equiv> fst (translate_if_needed E t (translate_lang_code s) (translate_lang_name s))"

text \<open>\<open>generate_audio\<close> (lines 605 to 621).\<close>

definition no_content :: pystr where
  "no_content = str ''(No content was generated or extracted)''"

definition generate_audio :: "env \<Rightarrow> session \<Rightarrow> pystr \<Rightarrow> session \<times> event list" where
  "generate_audio E s final_text_to_speak =
     (if final_text_to_speak \<noteq> [] \<and> \<not> contains error_marker final_text_to_speak then
        (case generate_speech E final_text_to_speak (tts_lang_code s) of
           (audio, ev) \<Rightarrow>
             let s1 = s\<lparr>current_text_to_speak := final_text_to_speak, current_audio_data := audio\<rparr>
             in (if \<not> truthy audio
                 then s1\<lparr>current_text_to_speak :=
                           current_text_to_speak s1 @ [10, 10] @ str ''(Error generating audio for this text)''\<rparr>
                 else s1, ev))
      else if final_text_to_speak \<noteq> [] then
        (s\<lparr>current_text_to_speak := final_text_to_speak, current_audio_data := None\<rparr>, [])
      else
        (s\<lparr>current_text_to_speak := no_content, current_audio_data := None\<rparr>, []))"

definition try_block :: "env \<Rightarrow> session \<Rightarrow> pystr \<Rightarrow> (pyexn + unit) \<times> session \<times> event list" where
  "try_block E s action =
     (case action_execution E s action of
        (Inl e, s1, ev) \<Rightarrow> (Inl e, s1, ev)
      | (Inr (gemini_result, final0), s1, ev) \<Rightarrow>
          (case process_gemini_result E s1 action gemini_result final0 of
             (final_text_to_speak, s2, ev2) \<Rightarrow>
               (case generate_audio E s2 final_text_to_speak of
                  (s3, ev3) \<Rightarrow> (Inr (), s3, ev @ ev2 @ ev3))))"

text \<open>
  The processing logic (lines 533 to 647): the handler of line 623 and the \<open>finally\<close>
  of line 629 around the \<open>try\<close>, and the two branches that reset the session without
  running an action. A session that is not processing is left as it is.
\<close>

definition finally_block :: "session \<Rightarrow> session" where
  "finally_block s = s\<lparr>processing := False, action_trigger := None\<rparr>"

definition processing_logic :: "env \<Rightarrow> session \<Rightarrow> session \<times> event list" where
  "processing_logic E s =
     (if processing s then
        (if truthy (action_trigger s) \<and> api_key_configured s then
           (case action_trigger s of
              None \<Rightarrow> (s, [])
            | Some action \<Rightarrow>
                (case try_block E s action of
                   (Inl e, s1, ev) \<Rightarrow>
                     (finally_block (s1\<lparr>current_text_to_speak :=
                                   str ''Error during '' @ action @ str '': '' @ e,
                                 current_audio_data := None\<rparr>), ev)
                 | (Inr u, s1, ev) \<Rightarrow> (finally_block s1, ev)))
         else if truthy (action_trigger s) \<and> \<not> api_key_configured s then (finally_block s, [])
         else if \<not> truthy (action_trigger s) \<and> processing s then (finally_block s, [])
         else (s, []))
      else (s, []))"

section \<open>Example services and sessions\<close>

text \<open>
  Concrete environments and a concrete session, on which the theorems below are
  instantiated. With \<open>services_up reply\<close> every service answers: the model returns
  \<open>reply\<close>, the translator returns each chunk as it is, the speech service returns three
  bytes. With \<open>services_down\<close> every service raises. \<open>ready_session\<close> is a session whose
  model has been configured.
\<close>

definition services_up :: "pystr \<Rightarrow> env" where
  "services_up reply =
     \<lparr>GOOGLE_API_KEY = Some (str ''key''),
      genai_configure = (\<lambda>key. None),
      new_model = (\<lambda>name. Inr (GenerativeModel name)),
      image_open = (\<lambda>b. Inr b),
      generate_content =
        (\<lambda>m content. Inr \<lparr>parts = True, prompt_feedback = None, response_text = Inr reply\<rparr>),
      google_translator = (\<lambda>target. Inr (\<lambda>i chunk. Inr chunk)),
      gtts = (\<lambda>txt lang. Inr [73, 68, 51])\<rparr>"

definition services_down :: env where
  "services_down =
     \<lparr>GOOGLE_API_KEY = Some (str ''key''),
      genai_configure = (\<lambda>key. Some (str ''unreachable'')),
      new_model = (\<lambda>name. Inl (str ''unreachable'')),
      image_open = (\<lambda>b. Inr b),
      generate_content = (\<lambda>m content. Inl (str ''timeout'')),
      google_translator = (\<lambda>target. Inr (\<lambda>i chunk. Inl (str ''unreachable''))),
      gtts = (\<lambda>txt lang. Inl (str ''unreachable''))\<rparr>"

text \<open>With \<open>services_quota\<close> the translator answers its first call and raises on every later one.\<close>

definition services_quota :: env where
  "services_quota =
     (services_up [])\<lparr>google_translator :=
        (\<lambda>target. Inr (\<lambda>i chunk. if i = 0 then Inr chunk else Inl (str ''quota exceeded'')))\<rparr>"

text \<open>With \<open>translator_down\<close> every call of the translator raises; the other services answer.\<close>

definition translator_down :: env where
  "translator_down =
     (services_up [])\<lparr>google_translator :=
        (\<lambda>target. Inr (\<lambda>i chunk. Inl (str ''unreachable'')))\<rparr>"

definition ready_session :: session where
  "ready_session =
     default_values\<lparr>gemini_model := Some (GenerativeModel (str ''gemini-2.0-flash'')),
                    api_key_configured := True\<rparr>"

section \<open>Facts about the string functions\<close>

lemma str_space: "str '' '' = [32]"
  by (simp add: str_def)

lemma isspace_32: "isspace 32"
  by (simp add: isspace_def)

lemma contains_hd: "p \<notin> set s \<Longrightarrow> \<not> contains (p # ps) s"
  by (induction s) auto

lemma replace_absent: "\<not> contains (p # ps) s \<Longrightarrow> replace (p # ps) new s = s"
  by (induction s) auto

lemma set_replace_subset: "set (replace old new s) \<subseteq> set s \<union> set new"
proof (induction old new s rule: replace.induct)
  case (1 new s)
  show ?case by (induction s) auto
next
  case (2 p ps new)
  show ?case by simp
next
  case (3 p ps new c cs)
  have "set (drop (length ps) cs) \<subseteq> set cs" by (rule set_drop_subset)
  with 3 show ?case by (auto split: if_splits)
qed

lemma replace_single_removes: "c \<notin> set new \<Longrightarrow> c \<notin> set (replace [c] new s)"
  by (induction s) auto

lemma replace_keeps_absent:
  "c \<notin> set s \<Longrightarrow> c \<notin> set new \<Longrightarrow> c \<notin> set (replace old new s)"
  using set_replace_subset [of old new s] by auto

text \<open>
  A character that some rule replaces on its own, and that no replacement text contains,
  is gone after the whole chain.
\<close>

lemma replace_all_removes:
  "(c \<notin> set s \<or> [c] \<in> fst ` set rs) \<Longrightarrow> (\<forall>r \<in> set rs. c \<notin> set (snd r))
     \<Longrightarrow> c \<notin> set (replace_all rs s)"
proof (induction rs arbitrary: s)
  case Nil
  then show ?case by simp
next
  case (Cons r rs)
  obtain old new where r: "r = (old, new)" by (cases r)
  have new: "c \<notin> set new" using Cons.prems(2) r by simp
  have "c \<notin> set (replace old new s) \<or> [c] \<in> fst ` set rs"
  proof (cases "old = [c]")
    case True
    then show ?thesis using replace_single_removes [OF new] by simp
  next
    case False
    then show ?thesis using Cons.prems(1) r replace_keeps_absent [OF _ new] by auto
  qed
  then show ?case using Cons.IH Cons.prems(2) r by simp
qed

lemma replace_all_absent:
  "(\<forall>r \<in> set rs. fst r \<noteq> [] \<and> \<not> contains (fst r) s) \<Longrightarrow> replace_all rs s = s"
proof (induction rs)
  case Nil
  then show ?case by simp
next
  case (Cons r rs)
  obtain old new where r: "r = (old, new)" by (cases r)
  with Cons.prems obtain p ps where "old = p # ps" by (cases old) auto
  then have "replace old new s = s" using Cons.prems r by (simp add: replace_absent)
  then show ?case using Cons r by simp
qed

lemma split_from_words:
  "list_all (\<lambda>c. \<not> isspace c) w \<Longrightarrow> list_all word (split_from w s)"
  by (induction w s rule: split_from.induct) (auto simp: word_def)

lemma split_words: "list_all word (split s)"
  by (simp add: split_def split_from_words)

lemma split_from_set:
  "v \<in> set (split_from w s) \<Longrightarrow> set v \<subseteq> set w \<union> set s"
  by (induction w s arbitrary: v rule: split_from.induct) (auto split: if_splits)

lemma split_from_append:
  "list_all (\<lambda>c. \<not> isspace c) v \<Longrightarrow> split_from w (v @ s) = split_from (w @ v) s"
  by (induction v arbitrary: w) auto

lemma split_from_tail:
  "list_all (\<lambda>c. \<not> isspace c) v \<Longrightarrow> split_from w v = (if w @ v = [] then [] else [w @ v])"
  using split_from_append [of v w "[]"] by simp

lemma split_from_join:
  "list_all word ws \<Longrightarrow> list_all (\<lambda>c. \<not> isspace c) w
     \<Longrightarrow> split_from w (join [32] ws) =
         (case ws of [] \<Rightarrow> (if w = [] then [] else [w]) | v # vs \<Rightarrow> (w @ v) # vs)"
proof (induction ws arbitrary: w)
  case Nil
  then show ?case by simp
next
  case (Cons v ws)
  have v: "v \<noteq> []" "list_all (\<lambda>c. \<not> isspace c) v"
    using Cons.prems(1) by (simp_all add: word_def)
  show ?case
  proof (cases ws)
    case Nil
    then show ?thesis using v by (simp add: split_from_tail)
  next
    case (Cons u us)
    have "split_from [] (join [32] ws) = u # us"
      using Cons.IH [of "[]"] Cons.prems(1) Cons by simp
    then show ?thesis using v Cons isspace_32 by (simp add: split_from_append)
  qed
qed

lemma split_join: "list_all word ws \<Longrightarrow> split (join [32] ws) = ws"
  by (cases ws) (simp_all add: split_def split_from_join)

lemma set_join_subset: "set (join sep ws) \<subseteq> set sep \<union> \<Union> (set ` set ws)"
  by (induction sep ws rule: join.induct) auto

lemma contains_skip_nonspace:
  "list_all (\<lambda>c. \<not> isspace c) v \<Longrightarrow> contains [32, 32] (v @ s) = contains [32, 32] s"
proof (induction v)
  case Nil
  then show ?case by simp
next
  case (Cons c v)
  then have "c \<noteq> 32" using isspace_32 by auto
  then show ?case using Cons by simp
qed

lemma join_starts_nonspace:
  assumes "word u"
  shows "\<exists>c cs. join [32] (u # ws) = c # cs \<and> c \<noteq> 32"
proof -
  from assms obtain c cs where u: "u = c # cs" and c: "\<not> isspace c"
    by (cases u) (auto simp: word_def)
  from c have "c \<noteq> 32" using isspace_32 by auto
  then show ?thesis using u by (cases ws) auto
qed

lemma no_double_space_join:
  "list_all word ws \<Longrightarrow> \<not> contains [32, 32] (join [32] ws)"
proof (induction ws)
  case Nil
  then show ?case by simp
next
  case (Cons v ws)
  have v: "list_all (\<lambda>c. \<not> isspace c) v" using Cons.prems by (simp add: word_def)
  show ?case
  proof (cases ws)
    case Nil
    then show ?thesis using contains_skip_nonspace [OF v, of "[]"] by simp
  next
    case (Cons u us)
    then have "word u" using Cons.prems by simp
    then obtain c cs where j: "join [32] (u # us) = c # cs" and c: "c \<noteq> 32"
      using join_starts_nonspace by blast
    have "\<not> contains [32, 32] (join [32] ws)" using Cons.IH Cons.prems by simp
    then have "\<not> contains [32, 32] (32 # join [32] ws)" using j c Cons by simp
    then show ?thesis
      using contains_skip_nonspace [OF v, of "32 # join [32] ws"] Cons by simp
  qed
qed

section \<open>The sanitizer\<close>

text \<open>
  A character of the sanitizer's result is a space or a character, not white space, of
  the text the substitutions produced.
\<close>

lemma clean_chars:
  assumes "c \<in> set (clean_text_for_speech x)"
  shows "c = 32 \<or> (c \<in> set (replace_all substitutions x) \<and> \<not> isspace c)"
proof -
  let ?t = "replace_all substitutions x"
  from assms have "c \<in> set (join [32] (split ?t))"
    by (simp add: clean_text_for_speech_def str_space)
  then have "c = 32 \<or> (\<exists>w \<in> set (split ?t). c \<in> set w)"
    using set_join_subset [of "[32]" "split ?t"] by auto
  then show ?thesis
  proof
    assume "c = 32"
    then show ?thesis by simp
  next
    assume "\<exists>w \<in> set (split ?t). c \<in> set w"
    then obtain w where w: "w \<in> set (split ?t)" "c \<in> set w" by blast
    then have "c \<in> set ?t" using split_from_set [of w "[]" ?t] by (auto simp: split_def)
    moreover have "word w" using split_words [of ?t] w(1) by (simp add: list_all_iff)
    then have "\<not> isspace c" using w(2) by (simp add: word_def list_all_iff)
    ultimately show ?thesis by simp
  qed
qed

text \<open>Every replacement text consists of lower-case letters and spaces.\<close>

lemma replacement_chars:
  "r \<in> set substitutions \<Longrightarrow> set (snd r) \<subseteq> insert 32 {97..122}"
  unfolding substitutions_def str_def by (elim disjE | simp)+

lemma single_patterns:
  "c \<in> {42, 96, 126, 40, 41, 91, 93, 123, 125, 38, 37, 61, 8776, 8733, 215, 247, 176, 43, 45}
     \<Longrightarrow> [c] \<in> fst ` set substitutions"
  unfolding substitutions_def str_def by (elim insertE emptyE) simp_all

lemma symbols_removed:
  assumes "c \<in> {42, 96, 126, 40, 41, 91, 93, 123, 125, 38, 37, 61, 8776, 8733, 215, 247, 176, 43, 45}"
  shows "c \<notin> set (replace_all substitutions x)"
proof (rule replace_all_removes)
  show "c \<notin> set x \<or> [c] \<in> fst ` set substitutions"
    using single_patterns [OF assms] by simp
  have "c \<notin> insert 32 {97..122}" using assms by auto
  then show "\<forall>r \<in> set substitutions. c \<notin> set (snd r)"
    using replacement_chars by blast
qed

text \<open>No pattern of the chain occurs in a sanitized text.\<close>

lemma clean_no_pattern:
  assumes "r \<in> set substitutions"
  shows "fst r \<noteq> [] \<and> \<not> contains (fst r) (clean_text_for_speech x)"
proof -
  let ?y = "clean_text_for_speech x"
  have single: "\<not> contains (c # ps) ?y"
    if "c \<in> {42, 96, 126, 40, 41, 91, 93, 123, 125, 38, 37, 61, 8776, 8733, 215, 247, 176, 43, 45}"
    for c ps
  proof -
    have "c \<noteq> 32" using that by auto
    then have "c \<notin> set ?y" using clean_chars [of c x] symbols_removed [OF that] by blast
    then show ?thesis by (rule contains_hd)
  qed
  have nl: "\<not> contains [10] ?y"
  proof -
    have "isspace 10" by (simp add: isspace_def)
    then have "10 \<notin> set ?y" using clean_chars [of 10 x] by auto
    then show ?thesis by (rule contains_hd)
  qed
  have sp: "\<not> contains [32, 32] ?y"
    unfolding clean_text_for_speech_def str_space
    by (rule no_double_space_join) (rule split_words)
  from assms show ?thesis
    unfolding substitutions_def str_def
    by (elim disjE | simp add: single nl sp)+
qed

text \<open>
  C7. The sanitizer is idempotent: sanitizing a sanitized text gives the same text, for
  every input string.
\<close>

theorem clean_text_for_speech_idempotent:
  "clean_text_for_speech (clean_text_for_speech x) = clean_text_for_speech x"
proof -
  let ?y = "clean_text_for_speech x"
  have "replace_all substitutions ?y = ?y"
    by (rule replace_all_absent) (use clean_no_pattern in blast)
  moreover have "split ?y = split (replace_all substitutions x)"
    unfolding clean_text_for_speech_def str_space
    by (rule split_join) (rule split_words)
  ultimately show ?thesis by (simp add: clean_text_for_speech_def)
qed

text \<open>
  C8. The sanitizer turns \<open>100% + 5 = 105\<close> into \<open>100 percent plus 5 equals 105\<close>: the
  result contains the words percent, plus and equals and none of the characters
  \<open>%\<close>, \<open>+\<close>, \<open>=\<close>. The substitutions of \<open>+\<close> and \<open>-\<close> are the last two of the chain,
  no earlier substitution has them as its pattern, and no replacement text contains
  \<open>+\<close> or \<open>-\<close>, so no text that a substitution wrote is substituted again.
\<close>

theorem clean_text_for_speech_example:
  "clean_text_for_speech (str ''100% + 5 = 105'') = str ''100 percent plus 5 equals 105''
   \<and> contains (str ''percent'') (clean_text_for_speech (str ''100% + 5 = 105''))
   \<and> contains (str ''plus'') (clean_text_for_speech (str ''100% + 5 = 105''))
   \<and> contains (str ''equals'') (clean_text_for_speech (str ''100% + 5 = 105''))
   \<and> \<not> contains (str ''%'') (clean_text_for_speech (str ''100% + 5 = 105''))
   \<and> \<not> contains (str ''+'') (clean_text_for_speech (str ''100% + 5 = 105''))
   \<and> \<not> contains (str ''='') (clean_text_for_speech (str ''100% + 5 = 105''))
   \<and> drop 20 substitutions = [(str ''+'', str '' plus ''), (str ''-'', str '' minus '')]
   \<and> filter (\<lambda>r. fst r = str ''+'' \<or> fst r = str ''-'') (take 20 substitutions) = []
   \<and> filter (\<lambda>r. 43 \<in> set (snd r) \<or> 45 \<in> set (snd r)) substitutions = []"
proof -
  have r: "clean_text_for_speech (str ''100% + 5 = 105'') = str ''100 percent plus 5 equals 105''"
    by (simp add: clean_text_for_speech_def substitutions_def str_def split_def isspace_def)
  have o: "drop 20 substitutions = [(str ''+'', str '' plus ''), (str ''-'', str '' minus '')]"
    by (simp add: substitutions_def)
  have p: "filter (\<lambda>r. fst r = str ''+'' \<or> fst r = str ''-'') (take 20 substitutions) = []"
    by (simp add: substitutions_def str_def)
  have n: "filter (\<lambda>r. 43 \<in> set (snd r) \<or> 45 \<in> set (snd r)) substitutions = []"
    by (simp add: substitutions_def str_def)
  have c: "contains (str ''percent'') (str ''100 percent plus 5 equals 105'')"
    "contains (str ''plus'') (str ''100 percent plus 5 equals 105'')"
    "contains (str ''equals'') (str ''100 percent plus 5 equals 105'')"
    "\<not> contains (str ''%'') (str ''100 percent plus 5 equals 105'')"
    "\<not> contains (str ''+'') (str ''100 percent plus 5 equals 105'')"
    "\<not> contains (str ''='') (str ''100 percent plus 5 equals 105'')"
    by (simp_all add: str_def)
  show ?thesis unfolding r using o p n c by simp
qed

section \<open>Facts about the adapters and the orchestrator\<close>

lemma error_marker_nonempty: "error_marker \<noteq> []"
  by (simp add: error_marker_def str_def)

lemma contains_nonempty: "contains sub s \<Longrightarrow> sub \<noteq> [] \<Longrightarrow> s \<noteq> []"
  by (cases s) auto

lemma translate_chunks_events:
  "filter is_speech_call (snd (translate_chunks tr target i chs acc)) = []
   \<and> filter is_generate_call (snd (translate_chunks tr target i chs acc)) = []
   \<and> filter is_configure_call (snd (translate_chunks tr target i chs acc)) = []"
  by (induction chs arbitrary: i acc) (auto simp: case_prod_unfold split: sum.splits)

lemma translate_events:
  "filter is_speech_call (snd (translate_if_needed E txt code name)) = []
   \<and> filter is_generate_call (snd (translate_if_needed E txt code name)) = []
   \<and> filter is_configure_call (snd (translate_if_needed E txt code name)) = []"
  by (auto simp: translate_if_needed_def case_prod_unfold translate_chunks_events
      split: option.splits sum.splits)

lemma translate_empty: "translate_if_needed E [] code name = ([], [])"
  by (simp add: translate_if_needed_def split: option.splits)

lemma finally_fields:
  "processing (finally_block s) = False" "action_trigger (finally_block s) = None"
  "last_explanation (finally_block s) = last_explanation s"
  "current_text_to_speak (finally_block s) = current_text_to_speak s"
  "current_audio_data (finally_block s) = current_audio_data s"
  by (simp_all add: finally_block_def)

lemma generate_audio_speaks:
  assumes "ft \<noteq> []" "\<not> contains error_marker ft"
  shows "snd (generate_audio E s ft) = [SpeechCall ft (tts_lang_code s)]"
    and "current_audio_data (fst (generate_audio E s ft)) = fst (generate_speech E ft (tts_lang_code s))"
    and "current_text_to_speak (fst (generate_audio E s ft)) =
           (if truthy (fst (generate_speech E ft (tts_lang_code s))) then ft
            else ft @ [10, 10] @ str ''(Error generating audio for this text)'')"
  using assms
  by (auto simp: generate_audio_def generate_speech_def Let_def split: prod.splits sum.splits)

lemma generate_audio_marker:
  assumes "contains error_marker ft"
  shows "generate_audio E s ft = (s\<lparr>current_text_to_speak := ft, current_audio_data := None\<rparr>, [])"
  using assms contains_nonempty [OF assms error_marker_nonempty]
  by (simp add: generate_audio_def)

lemma generate_audio_empty:
  "generate_audio E s [] = (s\<lparr>current_text_to_speak := no_content, current_audio_data := None\<rparr>, [])"
  by (simp add: generate_audio_def)

lemma generate_audio_keeps:
  "last_explanation (fst (generate_audio E s ft)) = last_explanation s"
  by (auto simp: generate_audio_def Let_def split: prod.splits)

lemma turn_read_text:
  assumes "processing s" "action_trigger s = Some (str ''read_text'')" "api_key_configured s"
    and "pasted_text_area s \<noteq> []"
  shows "processing_logic E s =
     (case translate_if_needed E (join (str '' '') (split (pasted_text_area s)))
              (translate_lang_code s) (translate_lang_name s) of
        (t, ev) \<Rightarrow>
          (case generate_audio E (s\<lparr>last_explanation := []\<rparr>) t of
             (s3, ev3) \<Rightarrow> (finally_block s3, ev @ ev3)))"
  using assms
  by (simp add: processing_logic_def try_block_def action_execution_def process_gemini_result_def
      str_def Let_def split: prod.splits)

lemma configure_gemini_keeps:
  "last_explanation (fst (snd (configure_gemini E s))) = last_explanation s
   \<and> translate_lang_code (fst (snd (configure_gemini E s))) = translate_lang_code s
   \<and> translate_lang_name (fst (snd (configure_gemini E s))) = translate_lang_name s
   \<and> tts_lang_code (fst (snd (configure_gemini E s))) = tts_lang_code s"
  by (auto simp: configure_gemini_def Let_def split: option.splits sum.splits bool.splits)

lemma get_gemini_response_session:
  "fst (snd (get_gemini_response E s prompt img txt)) = fst (snd (configure_gemini E s))"
  by (auto simp: get_gemini_response_def split: prod.splits option.splits sum.splits)

lemma get_gemini_response_keeps:
  "last_explanation (fst (snd (get_gemini_response E s prompt img txt))) = last_explanation s
   \<and> translate_lang_code (fst (snd (get_gemini_response E s prompt img txt))) = translate_lang_code s
   \<and> translate_lang_name (fst (snd (get_gemini_response E s prompt img txt))) = translate_lang_name s
   \<and> tts_lang_code (fst (snd (get_gemini_response E s prompt img txt))) = tts_lang_code s"
  by (simp add: get_gemini_response_session configure_gemini_keeps)

lemma get_gemini_response_returns:
  "\<exists>r. fst (get_gemini_response E s prompt img txt) = Inr r"
  by (auto simp: get_gemini_response_def split: prod.splits option.splits sum.splits)

text \<open>
  The template of the follow-up prompt has an automatic field, so formatting it with
  keyword arguments only raises, and a follow-up turn ends in the handler before the
  model is called.
\<close>

lemma follow_up_prompt_raises:
  "format_kwargs FOLLOW_UP_PROMPT
     [(str ''previous_explanation'', previous_explanation), (str ''user_feedback'', user_feedback)]
   = Inl (str ''Replacement index 0 out of range for positional args tuple'')"
  by (simp add: FOLLOW_UP_PROMPT_def str_def)

lemma follow_up_raises:
  "\<exists>e. action_execution E s (str ''follow_up'') = (Inl e, s, [])"
  by (simp add: action_execution_def follow_up_prompt_raises) (simp add: str_def)

lemma action_execution_model_result:
  assumes "action_execution E s a = (Inr (Some r, f0), s1, ev)"
    and "a \<in> {str ''explain_image'', str ''explain_text'', str ''follow_up'', str ''read_image''}"
  shows "f0 = [] \<and> last_explanation s1 = last_explanation s
         \<and> translate_lang_code s1 = translate_lang_code s
         \<and> translate_lang_name s1 = translate_lang_name s
         \<and> tts_lang_code s1 = tts_lang_code s"
proof -
  have k: "\<And>p i t x s' ev'. get_gemini_response E s p i t = (x, s', ev') \<Longrightarrow>
      last_explanation s' = last_explanation s \<and> translate_lang_code s' = translate_lang_code s
      \<and> translate_lang_name s' = translate_lang_name s \<and> tts_lang_code s' = tts_lang_code s"
    using get_gemini_response_keeps by (metis fst_conv snd_conv)
  from assms(2) consider "a = str ''explain_image''" | "a = str ''explain_text''"
    | "a = str ''follow_up''" | "a = str ''read_image''" by auto
  then show ?thesis
  proof cases
    case 1
    with assms(1) show ?thesis
      by (auto simp: action_execution_def split: if_splits prod.splits sum.splits dest: k)
  next
    case 2
    with assms(1) show ?thesis
      by (auto simp: action_execution_def str_def split: if_splits prod.splits sum.splits dest: k)
  next
    case 3
    with assms(1) follow_up_raises [of E s] show ?thesis by auto
  next
    case 4
    with assms(1) show ?thesis
      by (auto simp: action_execution_def str_def split: if_splits prod.splits sum.splits dest: k)
  qed
qed

lemma turn_after_execution:
  assumes "processing s" "action_trigger s = Some a" "a \<noteq> []" "api_key_configured s"
    and "action_execution E s a = (Inr (g, f0), s1, ev)"
  shows "processing_logic E s =
     (case process_gemini_result E s1 a g f0 of
        (t, s2, ev2) \<Rightarrow>
          (case generate_audio E s2 t of (s3, ev3) \<Rightarrow> (finally_block s3, ev @ ev2 @ ev3)))"
  using assms by (simp add: processing_logic_def try_block_def split: prod.splits)

lemma process_explain:
  assumes "a \<in> {str ''explain_image'', str ''explain_text'', str ''follow_up''}"
    and "\<not> contains error_marker r"
  shows "process_gemini_result E s a (Some r) f0 =
     (fst (translate_if_needed E (clean_text_for_speech r) (translate_lang_code s) (translate_lang_name s)),
      s\<lparr>last_explanation := clean_text_for_speech r\<rparr>,
      snd (translate_if_needed E (clean_text_for_speech r) (translate_lang_code s) (translate_lang_name s)))"
  using assms by (simp add: process_gemini_result_def Let_def case_prod_unfold)

lemma process_read_image:
  assumes "\<not> contains error_marker r"
  shows "process_gemini_result E s (str ''read_image'') (Some r) f0 =
     (fst (translate_if_needed E (join (str '' '') (split r)) (translate_lang_code s) (translate_lang_name s)),
      s\<lparr>last_explanation := []\<rparr>,
      snd (translate_if_needed E (join (str '' '') (split r)) (translate_lang_code s) (translate_lang_name s)))"
  using assms by (simp add: process_gemini_result_def Let_def case_prod_unfold) (simp add: str_def)

lemma process_marker:
  assumes "contains error_marker r"
  shows "process_gemini_result E s a (Some r) f0 = (r, s, [])"
  using assms by (simp add: process_gemini_result_def)

lemma configure_gemini_events:
  "filter is_speech_call (snd (snd (configure_gemini E s))) = []
   \<and> filter is_translate_call (snd (snd (configure_gemini E s))) = []"
  by (auto simp: configure_gemini_def Let_def split: option.splits sum.splits bool.splits)

lemma gemini_try_events:
  "filter is_speech_call (snd (gemini_try E m prompt img txt)) = []
   \<and> filter is_translate_call (snd (gemini_try E m prompt img txt)) = []"
  by (auto simp: gemini_try_def request_content_def generate_def split: option.splits sum.splits)

lemma get_gemini_response_events:
  "filter is_speech_call (snd (snd (get_gemini_response E s prompt img txt))) = []
   \<and> filter is_translate_call (snd (snd (get_gemini_response E s prompt img txt))) = []"
proof -
  obtain m s1 ev where c: "configure_gemini E s = (m, s1, ev)" by (cases "configure_gemini E s")
  then have ev: "filter is_speech_call ev = [] \<and> filter is_translate_call ev = []"
    using configure_gemini_events [of E s] by simp
  show ?thesis
  proof (cases m)
    case None
    with c ev show ?thesis by (simp add: get_gemini_response_def)
  next
    case (Some model)
    obtain x ev2 where g: "gemini_try E model prompt img txt = (x, ev2)"
      by (cases "gemini_try E model prompt img txt")
    then have "filter is_speech_call ev2 = [] \<and> filter is_translate_call ev2 = []"
      using gemini_try_events [of E model prompt img "txt"] by simp
    with c ev Some g show ?thesis by (cases x) (simp_all add: get_gemini_response_def)
  qed
qed

lemma model_call_events:
  "snd (snd (case x of (Inl e, s1, ev) \<Rightarrow> (Inl e, s1, ev)
                     | (Inr r, s1, ev) \<Rightarrow> (Inr (Some r, []), s1, ev))) = snd (snd x)"
proof -
  obtain y s1 ev where "x = (y, s1, ev)" by (cases x)
  then show ?thesis by (cases y) simp_all
qed

lemma translated_events:
  "snd (snd (case y of (ft, ev) \<Rightarrow> (f ft, t, ev))) = snd y"
  by (cases y) simp

lemma action_execution_no_speech:
  "filter is_speech_call (snd (snd (action_execution E s a))) = []"
proof -
  have g: "\<And>p i t. filter is_speech_call (snd (snd (get_gemini_response E s p i t))) = []"
    using get_gemini_response_events by simp
  show ?thesis
    by (simp add: action_execution_def Let_def model_call_events translated_events g
        translate_events follow_up_prompt_raises)
qed

lemma turn_exception:
  assumes "processing s" "action_trigger s = Some a" "a \<noteq> []" "api_key_configured s"
    and "action_execution E s a = (Inl e, s1, ev)"
  shows "processing_logic E s =
     (finally_block (s1\<lparr>current_text_to_speak := str ''Error during '' @ a @ str '': '' @ e,
                        current_audio_data := None\<rparr>), ev)"
  using assms by (simp add: processing_logic_def try_block_def)

lemma turn_not_ready:
  assumes "processing s" "\<not> api_key_configured s"
  shows "processing_logic E s = (finally_block s, [])"
  using assms by (simp add: processing_logic_def)

lemma action_execution_read_text:
  "action_execution E s (str ''read_text'') =
     (if pasted_text_area s = [] then (Inl (str ''No pasted text found for reading.''), s, [])
      else (Inr (None, fst (translate_if_needed E (join (str '' '') (split (pasted_text_area s)))
                              (translate_lang_code s) (translate_lang_name s))),
            s\<lparr>last_explanation := []\<rparr>,
            snd (translate_if_needed E (join (str '' '') (split (pasted_text_area s)))
                   (translate_lang_code s) (translate_lang_name s))))"
  by (simp add: action_execution_def Let_def case_prod_unfold) (simp add: str_def)

lemma action_execution_read_image:
  "action_execution E s (str ''read_image'') =
     (if \<not> truthy (last_uploaded_image s) then (Inl (str ''No image data found for reading.''), s, [])
      else (case get_gemini_response E s READ_PROMPT_IMAGE (last_uploaded_image s) None of
              (Inl e, s1, ev) \<Rightarrow> (Inl e, s1, ev)
            | (Inr r, s1, ev) \<Rightarrow> (Inr (Some r, []), s1, ev)))"
  by (simp add: action_execution_def) (simp add: str_def)

lemma action_execution_read_image_keeps:
  "last_explanation (fst (snd (action_execution E s (str ''read_image'')))) = last_explanation s"
  using get_gemini_response_keeps [of E s READ_PROMPT_IMAGE "last_uploaded_image s" None]
  by (auto simp: action_execution_read_image split: prod.splits sum.splits)

lemma process_keeps_or_clears_read_image:
  "last_explanation (fst (snd (process_gemini_result E s (str ''read_image'') g f0))) = last_explanation s
   \<or> last_explanation (fst (snd (process_gemini_result E s (str ''read_image'') g f0))) = []"
proof (cases g)
  case None
  then show ?thesis by (simp add: process_gemini_result_def)
next
  case (Some r)
  then show ?thesis
    by (cases "contains error_marker r") (simp_all add: process_marker process_read_image)
qed

section \<open>The claims about a turn\<close>

text \<open>
  C5. Every turn of the orchestrator ends with \<open>processing\<close> false and \<open>action_trigger\<close>
  none, whatever the action, the session and the answers of the services: after a
  success, after an error text of the model, after a missing input or another
  exception inside the \<open>try\<close>, and on the two branches that run no action.
\<close>

theorem turn_always_resets:
  assumes "processing s"
  shows "\<not> processing (fst (processing_logic E s))
         \<and> action_trigger (fst (processing_logic E s)) = None"
  using assms
  by (auto simp: processing_logic_def finally_fields split: option.splits sum.splits prod.splits)

text \<open>An instance: an explain-text turn without pasted text, which raises \<open>ValueError\<close>.\<close>

theorem turn_always_resets_witness:
  "processing (ready_session\<lparr>processing := True, action_trigger := Some (str ''explain_text'')\<rparr>)
   \<and> \<not> processing (fst (processing_logic services_down
         (ready_session\<lparr>processing := True, action_trigger := Some (str ''explain_text'')\<rparr>)))
   \<and> action_trigger (fst (processing_logic services_down
         (ready_session\<lparr>processing := True, action_trigger := Some (str ''explain_text'')\<rparr>))) = None"
proof -
  let ?s = "ready_session\<lparr>processing := True, action_trigger := Some (str ''explain_text'')\<rparr>"
  have h: "processing ?s" by simp
  from turn_always_resets [OF h, of services_down] h show ?thesis by simp
qed

text \<open>
  C9. In a read-text turn no model is called. When the pasted text, after its white
  space is collapsed and after translation (or its pass-through), contains \<open>Error:\<close>
  anywhere, the orchestrator shows that text, stores no audio and calls neither the
  speech service nor the model.
\<close>

theorem read_text_with_marker_skips_audio:
  assumes "processing s" "action_trigger s = Some (str ''read_text'')" "api_key_configured s"
    and "contains error_marker (translated E s (join (str '' '') (split (pasted_text_area s))))"
  shows "current_text_to_speak (fst (processing_logic E s)) =
           translated E s (join (str '' '') (split (pasted_text_area s)))
         \<and> current_audio_data (fst (processing_logic E s)) = None
         \<and> filter is_speech_call (snd (processing_logic E s)) = []
         \<and> filter is_generate_call (snd (processing_logic E s)) = []"
proof -
  have "pasted_text_area s \<noteq> []"
  proof
    assume "pasted_text_area s = []"
    then show False
      using assms(4) error_marker_nonempty by (simp add: split_def translate_empty)
  qed
  then show ?thesis
    using assms translate_events
    by (simp add: turn_read_text case_prod_unfold generate_audio_marker finally_fields)
qed

theorem read_text_with_marker_witness:
  "processing (ready_session\<lparr>processing := True, action_trigger := Some (str ''read_text''),
       pasted_text_area := str ''Error:  disk  full''\<rparr>)
   \<and> current_text_to_speak (fst (processing_logic (services_up [])
       (ready_session\<lparr>processing := True, action_trigger := Some (str ''read_text''),
          pasted_text_area := str ''Error:  disk  full''\<rparr>))) = str ''Error: disk full''
   \<and> current_audio_data (fst (processing_logic (services_up [])
       (ready_session\<lparr>processing := True, action_trigger := Some (str ''read_text''),
          pasted_text_area := str ''Error:  disk  full''\<rparr>))) = None
   \<and> filter is_speech_call (snd (processing_logic (services_up [])
       (ready_session\<lparr>processing := True, action_trigger := Some (str ''read_text''),
          pasted_text_area := str ''Error:  disk  full''\<rparr>))) = []"
proof -
  let ?s = "ready_session\<lparr>processing := True, action_trigger := Some (str ''read_text''),
       pasted_text_area := str ''Error:  disk  full''\<rparr>"
  have t: "translate_if_needed (services_up []) (join (str '' '') (split (pasted_text_area ?s)))
             (translate_lang_code ?s) (translate_lang_name ?s) = (str ''Error: disk full'', [])"
    by (simp add: translate_if_needed_def ready_session_def default_values_def split_def
        str_def isspace_def)
  have h: "processing ?s" "action_trigger ?s = Some (str ''read_text'')" "api_key_configured ?s"
    by (simp_all add: ready_session_def default_values_def)
  have m: "contains error_marker (str ''Error: disk full'')"
    by (simp add: error_marker_def str_def)
  show ?thesis
    using read_text_with_marker_skips_audio [of ?s "services_up []", OF h] h(1) m t by simp
qed

text \<open>
  C10. In an explain-image, explain-text or follow-up turn in which the model returned
  a text without \<open>Error:\<close> that the sanitizer reduces to the empty string, the stored
  explanation is overwritten with the empty string, whatever it was, the text shown is
  the placeholder, no audio is stored and the speech service is not called. (For a
  follow-up turn the premise on the model's result cannot hold, see
  \<open>follow_up_raises\<close>.)
\<close>

theorem empty_explanation_clears_context:
  assumes "processing s" "action_trigger s = Some a" "api_key_configured s"
    and "a \<in> {str ''explain_image'', str ''explain_text'', str ''follow_up''}"
    and "action_execution E s a = (Inr (Some r, f0), s1, ev)"
    and "\<not> contains error_marker r" "clean_text_for_speech r = []"
  shows "last_explanation (fst (processing_logic E s)) = []
         \<and> current_text_to_speak (fst (processing_logic E s)) = no_content
         \<and> current_audio_data (fst (processing_logic E s)) = None
         \<and> filter is_speech_call (snd (processing_logic E s)) = []"
proof -
  have a: "a \<noteq> []" using assms(4) by (auto simp: str_def)
  have "filter is_speech_call ev = []"
    using action_execution_no_speech [of E s a] assms(5) by simp
  then show ?thesis
    using process_explain [OF assms(4) assms(6), of E s1 f0] assms(7)
    by (simp add: turn_after_execution [OF assms(1) assms(2) a assms(3) assms(5)]
        translate_empty generate_audio_empty finally_fields)
qed

theorem empty_explanation_witness:
  "last_explanation (ready_session\<lparr>processing := True, action_trigger := Some (str ''explain_text''),
       pasted_text_area := str ''q'', last_explanation := str ''old''\<rparr>) = str ''old''
   \<and> clean_text_for_speech (str ''**'') = []
   \<and> last_explanation (fst (processing_logic (services_up (str ''**''))
       (ready_session\<lparr>processing := True, action_trigger := Some (str ''explain_text''),
          pasted_text_area := str ''q'', last_explanation := str ''old''\<rparr>))) = []
   \<and> current_text_to_speak (fst (processing_logic (services_up (str ''**''))
       (ready_session\<lparr>processing := True, action_trigger := Some (str ''explain_text''),
          pasted_text_area := str ''q'', last_explanation := str ''old''\<rparr>))) = no_content
   \<and> current_audio_data (fst (processing_logic (services_up (str ''**''))
       (ready_session\<lparr>processing := True, action_trigger := Some (str ''explain_text''),
          pasted_text_area := str ''q'', last_explanation := str ''old''\<rparr>))) = None"
proof -
  let ?s = "ready_session\<lparr>processing := True, action_trigger := Some (str ''explain_text''),
       pasted_text_area := str ''q'', last_explanation := str ''old''\<rparr>"
  let ?E = "services_up (str ''**'')"
  have h: "processing ?s" "action_trigger ?s = Some (str ''explain_text'')" "api_key_configured ?s"
    by (simp_all add: ready_session_def default_values_def)
  have a: "str ''explain_text'' \<in> {str ''explain_image'', str ''explain_text'', str ''follow_up''}"
    by simp
  have x: "action_execution ?E ?s (str ''explain_text'') =
      (Inr (Some (str ''**''), []), ?s,
       [GenerateCall [PText EXPLAIN_PROMPT_BASE, PText (str ''q'')]])"
    by (simp add: action_execution_def get_gemini_response_def configure_gemini_def
        gemini_try_def request_content_def generate_def classify_def services_up_def ready_session_def
        default_values_def strip_def str_def isspace_def)
  have m: "\<not> contains error_marker (str ''**'')"
    by (simp add: error_marker_def str_def)
  have c: "clean_text_for_speech (str ''**'') = []"
    by (simp add: clean_text_for_speech_def substitutions_def str_def split_def)
  have l: "last_explanation ?s = str ''old''" by simp
  show ?thesis
    using empty_explanation_clears_context [OF h a x m c] c l by simp
qed

lemma read_turn_empty_or_kept:
  assumes "processing s" "action_trigger s = Some a"
    and "a = str ''read_image'' \<or> a = str ''read_text''"
  shows "(last_explanation (fst (processing_logic E s)) = []
            \<or> last_explanation (fst (processing_logic E s)) = last_explanation s)
         \<and> (a = str ''read_text'' \<and> api_key_configured s \<and> pasted_text_area s \<noteq> []
              \<longrightarrow> last_explanation (fst (processing_logic E s)) = [])
         \<and> (a = str ''read_image'' \<and> api_key_configured s
              \<and> fst (action_execution E s a) = Inr (Some r, f0) \<and> \<not> contains error_marker r
              \<longrightarrow> last_explanation (fst (processing_logic E s)) = [])"
proof (cases "api_key_configured s")
  case False
  then show ?thesis using assms(1) by (simp add: turn_not_ready finally_fields)
next
  case True
  have a: "a \<noteq> []" using assms(3) by (auto simp: str_def)
  note exc = turn_exception [OF assms(1) assms(2) a True]
  note run = turn_after_execution [OF assms(1) assms(2) a True]
  from assms(3) show ?thesis
  proof
    assume ri: "a = str ''read_image''"
    obtain x s1 ev where ae: "action_execution E s a = (x, s1, ev)"
      by (cases "action_execution E s a")
    have k: "last_explanation s1 = last_explanation s"
      using action_execution_read_image_keeps [of E s] ae ri by simp
    have ne: "str ''read_image'' \<noteq> str ''read_text''" by (simp add: str_def)
    show ?thesis
    proof (cases x)
      case (Inl e)
      then show ?thesis using exc [of E e s1 ev] ae k ri ne by (simp add: finally_fields)
    next
      case (Inr gf)
      obtain g f where gf: "gf = (g, f)" by (cases gf)
      have p: "processing_logic E s =
          (case process_gemini_result E s1 a g f of
             (t, s2, ev2) \<Rightarrow>
               (case generate_audio E s2 t of (s3, ev3) \<Rightarrow> (finally_block s3, ev @ ev2 @ ev3)))"
        using run [of E g f s1 ev] ae Inr gf by simp
      have l: "last_explanation (fst (processing_logic E s)) =
          last_explanation (fst (snd (process_gemini_result E s1 a g f)))"
        by (simp add: p case_prod_unfold finally_fields generate_audio_keeps)
      have "fst (action_execution E s a) = Inr (Some r, f0) \<Longrightarrow> \<not> contains error_marker r
          \<Longrightarrow> last_explanation (fst (processing_logic E s)) = []"
        using ae Inr gf l ri by (simp add: process_read_image)
      moreover have "last_explanation (fst (processing_logic E s)) = []
          \<or> last_explanation (fst (processing_logic E s)) = last_explanation s"
        using process_keeps_or_clears_read_image [of E s1 g f] l k ri by auto
      ultimately show ?thesis using ri ne by auto
    qed
  next
    assume rt: "a = str ''read_text''"
    have ne: "str ''read_text'' \<noteq> str ''read_image''" by (simp add: str_def)
    show ?thesis
    proof (cases "pasted_text_area s = []")
      case True
      then show ?thesis
        using exc [of E "str ''No pasted text found for reading.''" s "[]"] rt ne
        by (simp add: action_execution_read_text finally_fields)
    next
      case False
      then have "last_explanation (fst (processing_logic E s)) = []"
        using turn_read_text [OF assms(1) _ True False, of E] assms(2) rt
        by (simp add: case_prod_unfold finally_fields generate_audio_keeps)
      then show ?thesis by simp
    qed
  qed
qed

lemma read_turn_not_ready:
  assumes "processing s" "\<not> api_key_configured s"
  shows "last_explanation (fst (processing_logic E s)) = last_explanation s"
  using assms by (simp add: turn_not_ready finally_fields)

lemma read_text_missing_input:
  assumes "processing s" "action_trigger s = Some (str ''read_text'')" "api_key_configured s"
    and "pasted_text_area s = []"
  shows "last_explanation (fst (processing_logic E s)) = last_explanation s"
proof -
  have a: "str ''read_text'' \<noteq> ([]::pystr)" by (simp add: str_def)
  have "action_execution E s (str ''read_text'') =
      (Inl (str ''No pasted text found for reading.''), s, [])"
    using assms(4) by (simp add: action_execution_read_text)
  from turn_exception [OF assms(1) assms(2) a assms(3) this] show ?thesis
    by (simp add: finally_fields)
qed

lemma read_image_missing_input:
  assumes "processing s" "action_trigger s = Some (str ''read_image'')" "api_key_configured s"
    and "\<not> truthy (last_uploaded_image s)"
  shows "last_explanation (fst (processing_logic E s)) = last_explanation s"
proof -
  have a: "str ''read_image'' \<noteq> ([]::pystr)" by (simp add: str_def)
  have "action_execution E s (str ''read_image'') =
      (Inl (str ''No image data found for reading.''), s, [])"
    using assms(4) by (simp add: action_execution_read_image)
  from turn_exception [OF assms(1) assms(2) a assms(3) this] show ?thesis
    by (simp add: finally_fields)
qed

lemma read_image_error_kept:
  assumes "processing s" "action_trigger s = Some (str ''read_image'')" "api_key_configured s"
    and "fst (action_execution E s (str ''read_image'')) = Inr (Some r, f0)"
    and "contains error_marker r"
  shows "last_explanation (fst (processing_logic E s)) = last_explanation s"
proof -
  have a: "str ''read_image'' \<noteq> ([]::pystr)" by (simp add: str_def)
  obtain s1 ev where ae: "action_execution E s (str ''read_image'') = (Inr (Some r, f0), s1, ev)"
    using assms(4) by (cases "action_execution E s (str ''read_image'')") auto
  have k: "last_explanation s1 = last_explanation s"
    using action_execution_read_image_keeps [of E s] ae by simp
  show ?thesis
    using k
    by (simp add: turn_after_execution [OF assms(1) assms(2) a assms(3) ae]
        process_marker [OF assms(5)] generate_audio_marker [OF assms(5)] finally_fields)
qed

lemma read_image_result:
  assumes "truthy (last_uploaded_image s)"
  shows "\<exists>r. fst (action_execution E s (str ''read_image'')) = Inr (Some r, [])
             \<and> fst (get_gemini_response E s READ_PROMPT_IMAGE (last_uploaded_image s) None) = Inr r"
proof -
  obtain r where "fst (get_gemini_response E s READ_PROMPT_IMAGE (last_uploaded_image s) None) = Inr r"
    using get_gemini_response_returns by blast
  then show ?thesis
    using assms by (auto simp: action_execution_read_image split: prod.splits)
qed

text \<open>
  C3 (amended). A read-image or read-text turn leaves the stored explanation empty or
  as it was, so it never sets it to a new text. It is empty after a read-text turn that
  had pasted text, and after a read-image turn whose model result carries no \<open>Error:\<close>.
  It keeps the value it had before the turn when the key is not configured, when the
  pasted text or the image is missing, and when the model result of a read-image turn
  contains \<open>Error:\<close>. A read-image turn with an image always has a model result, the
  string the adapter returned.
\<close>

theorem read_turn_context:
  assumes "processing s" "action_trigger s = Some a"
    and "a = str ''read_image'' \<or> a = str ''read_text''"
  shows "(last_explanation (fst (processing_logic E s)) = []
            \<or> last_explanation (fst (processing_logic E s)) = last_explanation s)
         \<and> (a = str ''read_text'' \<and> api_key_configured s \<and> pasted_text_area s \<noteq> []
              \<longrightarrow> last_explanation (fst (processing_logic E s)) = [])
         \<and> (a = str ''read_image'' \<and> api_key_configured s
              \<and> fst (action_execution E s a) = Inr (Some r, f0) \<and> \<not> contains error_marker r
              \<longrightarrow> last_explanation (fst (processing_logic E s)) = [])
         \<and> (\<not> api_key_configured s
              \<longrightarrow> last_explanation (fst (processing_logic E s)) = last_explanation s)
         \<and> (a = str ''read_text'' \<and> api_key_configured s \<and> pasted_text_area s = []
              \<longrightarrow> last_explanation (fst (processing_logic E s)) = last_explanation s)
         \<and> (a = str ''read_image'' \<and> api_key_configured s \<and> \<not> truthy (last_uploaded_image s)
              \<longrightarrow> last_explanation (fst (processing_logic E s)) = last_explanation s)
         \<and> (a = str ''read_image'' \<and> api_key_configured s
              \<and> fst (action_execution E s a) = Inr (Some r, f0) \<and> contains error_marker r
              \<longrightarrow> last_explanation (fst (processing_logic E s)) = last_explanation s)
         \<and> (a = str ''read_image'' \<and> truthy (last_uploaded_image s)
              \<longrightarrow> (\<exists>x. fst (action_execution E s a) = Inr (Some x, [])
                       \<and> fst (get_gemini_response E s READ_PROMPT_IMAGE
                                (last_uploaded_image s) None) = Inr x))"
proof -
  note old = read_turn_empty_or_kept [OF assms, of E r f0]
  have 4: "\<not> api_key_configured s
      \<longrightarrow> last_explanation (fst (processing_logic E s)) = last_explanation s"
    using read_turn_not_ready [OF assms(1)] by blast
  have 5: "a = str ''read_text'' \<and> api_key_configured s \<and> pasted_text_area s = []
      \<longrightarrow> last_explanation (fst (processing_logic E s)) = last_explanation s"
    using read_text_missing_input [OF assms(1), of E] assms(2) by blast
  have 6: "a = str ''read_image'' \<and> api_key_configured s \<and> \<not> truthy (last_uploaded_image s)
      \<longrightarrow> last_explanation (fst (processing_logic E s)) = last_explanation s"
    using read_image_missing_input [OF assms(1), of E] assms(2) by blast
  have 7: "a = str ''read_image'' \<and> api_key_configured s
        \<and> fst (action_execution E s a) = Inr (Some r, f0) \<and> contains error_marker r
      \<longrightarrow> last_explanation (fst (processing_logic E s)) = last_explanation s"
    using read_image_error_kept [OF assms(1), of E r f0] assms(2) by blast
  have 8: "a = str ''read_image'' \<and> truthy (last_uploaded_image s)
      \<longrightarrow> (\<exists>x. fst (action_execution E s a) = Inr (Some x, [])
               \<and> fst (get_gemini_response E s READ_PROMPT_IMAGE
                        (last_uploaded_image s) None) = Inr x)"
    using read_image_result [of s E] by blast
  from old 4 5 6 7 8 show ?thesis by blast
qed

text \<open>
  Two instances: a read-text turn with pasted text clears the stored explanation, and
  a read-text turn without pasted text keeps it.
\<close>

theorem read_turn_context_witness:
  "processing (ready_session\<lparr>processing := True, action_trigger := Some (str ''read_text''),
       pasted_text_area := str ''one  two'', last_explanation := str ''old''\<rparr>)
   \<and> last_explanation (ready_session\<lparr>processing := True, action_trigger := Some (str ''read_text''),
       pasted_text_area := str ''one  two'', last_explanation := str ''old''\<rparr>) = str ''old''
   \<and> last_explanation (fst (processing_logic (services_up [])
       (ready_session\<lparr>processing := True, action_trigger := Some (str ''read_text''),
          pasted_text_area := str ''one  two'', last_explanation := str ''old''\<rparr>))) = []
   \<and> last_explanation (fst (processing_logic (services_up [])
       (ready_session\<lparr>processing := True, action_trigger := Some (str ''read_text''),
          last_explanation := str ''old''\<rparr>))) = str ''old''"
proof -
  let ?s = "ready_session\<lparr>processing := True, action_trigger := Some (str ''read_text''),
       pasted_text_area := str ''one  two'', last_explanation := str ''old''\<rparr>"
  let ?u = "ready_session\<lparr>processing := True, action_trigger := Some (str ''read_text''),
       last_explanation := str ''old''\<rparr>"
  have h: "processing ?s" "action_trigger ?s = Some (str ''read_text'')"
    "str ''read_text'' = str ''read_image'' \<or> str ''read_text'' = str ''read_text''"
    by simp_all
  have k: "api_key_configured ?s" "pasted_text_area ?s \<noteq> []"
    by (simp_all add: ready_session_def default_values_def str_def)
  have g: "processing ?u" "action_trigger ?u = Some (str ''read_text'')"
    by simp_all
  have j: "api_key_configured ?u" "pasted_text_area ?u = []" "last_explanation ?u = str ''old''"
    by (simp_all add: ready_session_def default_values_def)
  show ?thesis
    using read_turn_context [OF h, of "services_up []"]
      read_turn_context [OF g h(3), of "services_up []"] k j h(1)
    by simp
qed

text \<open>
  The claim as stated fails on a read-image turn in which the model call raises: the
  explanation stored before the turn is still there after it.
\<close>

theorem read_image_error_keeps_context:
  "processing (ready_session\<lparr>processing := True, action_trigger := Some (str ''read_image''),
       last_uploaded_image := Some [137, 80, 78, 71], last_explanation := str ''old''\<rparr>)
   \<and> action_trigger (ready_session\<lparr>processing := True, action_trigger := Some (str ''read_image''),
       last_uploaded_image := Some [137, 80, 78, 71], last_explanation := str ''old''\<rparr>)
       = Some (str ''read_image'')
   \<and> last_explanation (fst (processing_logic services_down
       (ready_session\<lparr>processing := True, action_trigger := Some (str ''read_image''),
          last_uploaded_image := Some [137, 80, 78, 71], last_explanation := str ''old''\<rparr>)))
       = str ''old''
   \<and> last_explanation (fst (processing_logic services_down
       (ready_session\<lparr>processing := True, action_trigger := Some (str ''read_image''),
          last_uploaded_image := Some [137, 80, 78, 71], last_explanation := str ''old''\<rparr>)))
       \<noteq> []"
  by (simp add: processing_logic_def try_block_def action_execution_def
      get_gemini_response_def configure_gemini_def gemini_try_def request_content_def generate_def
      process_gemini_result_def generate_audio_def finally_block_def services_down_def
      ready_session_def default_values_def error_marker_def str_def)

section \<open>The result of the model adapter\<close>

lemma startswith_append: "startswith p q \<Longrightarrow> startswith (p @ e) q"
  by (induction p q rule: startswith.induct) auto

lemma error_strings:
  "startswith (str ''Error: Gemini model failed to configure. Check API Key and logs.'') error_marker"
  "startswith (str ''Error: Could not read image data.'') error_marker"
  "startswith (str ''Error: AI response blocked. Reason: '' @ x) error_marker"
  "startswith (str ''Error: AI generated an empty response (possibly due to safety filters or content restrictions).'') error_marker"
  "startswith (str ''Error: Could not get response from AI during generation. Details: '' @ x) error_marker"
  by (simp_all add: str_def error_marker_def)

lemma classify_shape:
  assumes "classify resp = Inr r"
  shows "startswith r error_marker
         \<or> (parts resp \<and> (\<exists>t. response_text resp = Inr t \<and> r = strip t))"
  using assms error_strings
  by (auto simp: classify_def split: if_splits option.splits sum.splits)

lemma classify_raises:
  assumes "classify resp = Inl e"
  shows "parts resp \<and> response_text resp = Inl e"
  using assms by (auto simp: classify_def split: if_splits option.splits sum.splits)

lemma request_content_early:
  assumes "request_content E prompt img tin = Inl early"
  shows "early = str ''Error: Could not read image data.''"
  using assms by (auto simp: request_content_def split: if_splits sum.splits)

text \<open>The result of the adapter, case by case, for the call that is made.\<close>

lemma adapter_result:
  "fst (get_gemini_response E s prompt img tin) =
     Inr (case fst (configure_gemini E s) of
            None \<Rightarrow> str ''Error: Gemini model failed to configure. Check API Key and logs.''
          | Some m \<Rightarrow>
              (case request_content E prompt img tin of
                 Inl early \<Rightarrow> early
               | Inr content \<Rightarrow>
                   (case generate_content E m content of
                      Inl e \<Rightarrow>
                        str ''Error: Could not get response from AI during generation. Details: '' @ e
                    | Inr resp \<Rightarrow>
                        (case classify resp of
                           Inl e \<Rightarrow>
                             str ''Error: Could not get response from AI during generation. Details: '' @ e
                         | Inr r \<Rightarrow> r))))"
proof -
  obtain m s1 ev where c: "configure_gemini E s = (m, s1, ev)" by (cases "configure_gemini E s")
  show ?thesis
  proof (cases m)
    case None
    with c show ?thesis by (simp add: get_gemini_response_def)
  next
    case (Some model)
    with c show ?thesis
      by (simp add: get_gemini_response_def gemini_try_def generate_def
          split: sum.splits prod.splits)
  qed
qed

lemma adapter_success:
  assumes "fst (configure_gemini E s) = Some m" "request_content E prompt img tin = Inr content"
    and "generate_content E m content = Inr resp" "parts resp" "response_text resp = Inr t"
  shows "fst (get_gemini_response E s prompt img tin) = Inr (strip t)"
  using assms by (simp add: adapter_result classify_def)

lemma adapter_exception:
  assumes "fst (configure_gemini E s) = Some m" "request_content E prompt img tin = Inr content"
    and "generate_content E m content = Inl e
         \<or> (generate_content E m content = Inr resp \<and> parts resp \<and> response_text resp = Inl e)"
  shows "fst (get_gemini_response E s prompt img tin) =
           Inr (str ''Error: Could not get response from AI during generation. Details: '' @ e)"
  using assms by (auto simp: adapter_result classify_def)

lemma adapter_failure:
  assumes "\<not> (\<exists>m content resp t. fst (configure_gemini E s) = Some m
                \<and> request_content E prompt img tin = Inr content
                \<and> generate_content E m content = Inr resp \<and> parts resp
                \<and> response_text resp = Inr t)"
  shows "\<exists>x. fst (get_gemini_response E s prompt img tin) = Inr x \<and> startswith x error_marker"
proof (cases "fst (configure_gemini E s)")
  case None
  then show ?thesis by (simp add: adapter_result error_strings)
next
  case (Some m)
  show ?thesis
  proof (cases "request_content E prompt img tin")
    case (Inl early)
    with Some request_content_early [OF Inl] show ?thesis
      by (simp add: adapter_result error_strings)
  next
    case (Inr content)
    show ?thesis
    proof (cases "generate_content E m content")
      case (Inl e)
      with Some Inr show ?thesis by (simp add: adapter_result error_strings)
    next
      case resp: (Inr resp)
      show ?thesis
      proof (cases "classify resp")
        case (Inl e)
        with Some Inr resp show ?thesis by (simp add: adapter_result error_strings)
      next
        case r: (Inr r)
        from classify_shape [OF r] assms Some Inr resp have "startswith r error_marker"
          by blast
        with Some Inr resp r show ?thesis by (simp add: adapter_result)
      qed
    qed
  qed
qed

lemma audio_step:
  assumes "t \<noteq> []" "\<not> contains error_marker t" "filter is_speech_call ev0 = []"
    and "processing_logic E s =
           (case generate_audio E s2 t of (s3, ev3) \<Rightarrow> (finally_block s3, ev0 @ ev3))"
  shows "filter is_speech_call (snd (processing_logic E s)) = [SpeechCall t (tts_lang_code s2)]
         \<and> current_audio_data (fst (processing_logic E s)) = fst (generate_speech E t (tts_lang_code s2))
         \<and> current_text_to_speak (fst (processing_logic E s)) =
             (if truthy (fst (generate_speech E t (tts_lang_code s2))) then t
              else t @ [10, 10] @ str ''(Error generating audio for this text)'')
         \<and> last_explanation (fst (processing_logic E s)) = last_explanation s2"
  using assms(3) generate_audio_speaks [OF assms(1) assms(2), of E s2]
  by (simp add: assms(4) case_prod_unfold finally_fields generate_audio_keeps)

lemma turn_success_explain:
  assumes "processing s" "action_trigger s = Some a" "api_key_configured s"
    and "a \<in> {str ''explain_image'', str ''explain_text'', str ''follow_up''}"
    and "action_execution E s a = (Inr (Some r, f0), s1, ev)"
    and "\<not> contains error_marker r"
  shows "last_explanation (fst (processing_logic E s)) = clean_text_for_speech r"
    and "translated E s (clean_text_for_speech r) \<noteq> []
         \<Longrightarrow> \<not> contains error_marker (translated E s (clean_text_for_speech r))
         \<Longrightarrow> filter is_speech_call (snd (processing_logic E s)) =
               [SpeechCall (translated E s (clean_text_for_speech r)) (tts_lang_code s)]
             \<and> current_audio_data (fst (processing_logic E s)) =
                 fst (generate_speech E (translated E s (clean_text_for_speech r)) (tts_lang_code s))
             \<and> current_text_to_speak (fst (processing_logic E s)) =
                 (if truthy (fst (generate_speech E (translated E s (clean_text_for_speech r)) (tts_lang_code s)))
                  then translated E s (clean_text_for_speech r)
                  else translated E s (clean_text_for_speech r) @ [10, 10]
                       @ str ''(Error generating audio for this text)'')"
proof -
  have a: "a \<noteq> []" using assms(4) by (auto simp: str_def)
  have a4: "a \<in> {str ''explain_image'', str ''explain_text'', str ''follow_up'', str ''read_image''}"
    using assms(4) by auto
  note k = action_execution_model_result [OF assms(5) a4]
  let ?c = "clean_text_for_speech r"
  let ?ev2 = "snd (translate_if_needed E ?c (translate_lang_code s) (translate_lang_name s))"
  have pl: "processing_logic E s =
      (case generate_audio E (s1\<lparr>last_explanation := ?c\<rparr>) (translated E s ?c) of
         (s3, ev3) \<Rightarrow> (finally_block s3, (ev @ ?ev2) @ ev3))"
    using process_explain [OF assms(4) assms(6), of E s1 f0] k
    by (simp add: turn_after_execution [OF assms(1) assms(2) a assms(3) assms(5)])
  show "last_explanation (fst (processing_logic E s)) = ?c"
    by (simp add: pl case_prod_unfold finally_fields generate_audio_keeps)
  have e: "filter is_speech_call (ev @ ?ev2) = []"
    using action_execution_no_speech [of E s a] assms(5) translate_events by simp
  assume t: "translated E s ?c \<noteq> []" "\<not> contains error_marker (translated E s ?c)"
  from audio_step [OF t e pl] k
  show "filter is_speech_call (snd (processing_logic E s)) =
               [SpeechCall (translated E s ?c) (tts_lang_code s)]
             \<and> current_audio_data (fst (processing_logic E s)) =
                 fst (generate_speech E (translated E s ?c) (tts_lang_code s))
             \<and> current_text_to_speak (fst (processing_logic E s)) =
                 (if truthy (fst (generate_speech E (translated E s ?c) (tts_lang_code s)))
                  then translated E s ?c
                  else translated E s ?c @ [10, 10]
                       @ str ''(Error generating audio for this text)'')"
    by simp
qed

lemma turn_success_read_image:
  assumes "processing s" "action_trigger s = Some (str ''read_image'')" "api_key_configured s"
    and "action_execution E s (str ''read_image'') = (Inr (Some r, f0), s1, ev)"
    and "\<not> contains error_marker r"
  shows "last_explanation (fst (processing_logic E s)) = []"
    and "translated E s (join (str '' '') (split r)) \<noteq> []
         \<Longrightarrow> \<not> contains error_marker (translated E s (join (str '' '') (split r)))
         \<Longrightarrow> filter is_speech_call (snd (processing_logic E s)) =
               [SpeechCall (translated E s (join (str '' '') (split r))) (tts_lang_code s)]
             \<and> current_audio_data (fst (processing_logic E s)) =
                 fst (generate_speech E (translated E s (join (str '' '') (split r))) (tts_lang_code s))
             \<and> current_text_to_speak (fst (processing_logic E s)) =
                 (if truthy (fst (generate_speech E (translated E s (join (str '' '') (split r))) (tts_lang_code s)))
                  then translated E s (join (str '' '') (split r))
                  else translated E s (join (str '' '') (split r)) @ [10, 10]
                       @ str ''(Error generating audio for this text)'')"
proof -
  have a: "str ''read_image'' \<noteq> ([]::pystr)" by (simp add: str_def)
  have a4: "str ''read_image'' \<in>
      {str ''explain_image'', str ''explain_text'', str ''follow_up'', str ''read_image''}"
    by simp
  note k = action_execution_model_result [OF assms(4) a4]
  let ?c = "join (str '' '') (split r)"
  let ?ev2 = "snd (translate_if_needed E ?c (translate_lang_code s) (translate_lang_name s))"
  have pl: "processing_logic E s =
      (case generate_audio E (s1\<lparr>last_explanation := []\<rparr>) (translated E s ?c) of
         (s3, ev3) \<Rightarrow> (finally_block s3, (ev @ ?ev2) @ ev3))"
    using process_read_image [OF assms(5), of E s1 f0] k
    by (simp add: turn_after_execution [OF assms(1) assms(2) a assms(3) assms(4)])
  show "last_explanation (fst (processing_logic E s)) = []"
    by (simp add: pl case_prod_unfold finally_fields generate_audio_keeps)
  have e: "filter is_speech_call (ev @ ?ev2) = []"
    using action_execution_no_speech [of E s "str ''read_image''"] assms(4) translate_events
    by simp
  assume t: "translated E s ?c \<noteq> []" "\<not> contains error_marker (translated E s ?c)"
  from audio_step [OF t e pl] k
  show "filter is_speech_call (snd (processing_logic E s)) =
               [SpeechCall (translated E s ?c) (tts_lang_code s)]
             \<and> current_audio_data (fst (processing_logic E s)) =
                 fst (generate_speech E (translated E s ?c) (tts_lang_code s))
             \<and> current_text_to_speak (fst (processing_logic E s)) =
                 (if truthy (fst (generate_speech E (translated E s ?c) (tts_lang_code s)))
                  then translated E s ?c
                  else translated E s ?c @ [10, 10]
                       @ str ''(Error generating audio for this text)'')"
    by simp
qed

text \<open>
  C1 (amended). The model adapter always returns a string. When the model is
  configured, the request can be built, and the service answers the request with a
  response that has parts and a readable text, the string is that text, stripped. When
  the service or the reading of the text raises, the string is the error text of line
  230 with the exception's message. In every case other than the successful one (the
  model is not configured, the image cannot be opened, the response has no parts, an
  exception) the string begins with \<open>Error:\<close>. For every result that does not contain
  \<open>Error:\<close> anywhere: an explain-image, explain-text or follow-up turn stores the
  sanitized result as the last explanation, a read-image turn clears the last
  explanation, and when the translated text is not empty and contains no \<open>Error:\<close>
  the speech service is called once, on that text, its audio is stored and the text is
  shown.
\<close>

theorem adapter_result_and_success_turn:
  "(\<exists>x. fst (get_gemini_response E s prompt img tin) = Inr x)
   \<and> (fst (configure_gemini E s) = Some m \<and> request_content E prompt img tin = Inr content
        \<and> generate_content E m content = Inr resp \<and> parts resp \<and> response_text resp = Inr t
       \<longrightarrow> fst (get_gemini_response E s prompt img tin) = Inr (strip t))
   \<and> (fst (configure_gemini E s) = Some m \<and> request_content E prompt img tin = Inr content
        \<and> (generate_content E m content = Inl e
             \<or> (generate_content E m content = Inr resp \<and> parts resp
                  \<and> response_text resp = Inl e))
       \<longrightarrow> fst (get_gemini_response E s prompt img tin) =
             Inr (str ''Error: Could not get response from AI during generation. Details: '' @ e))
   \<and> (\<not> (\<exists>m content resp t. fst (configure_gemini E s) = Some m
                \<and> request_content E prompt img tin = Inr content
                \<and> generate_content E m content = Inr resp \<and> parts resp
                \<and> response_text resp = Inr t)
       \<longrightarrow> (\<exists>x. fst (get_gemini_response E s prompt img tin) = Inr x
                 \<and> startswith x error_marker))
   \<and> (processing s \<and> action_trigger s = Some a \<and> api_key_configured s
        \<and> a \<in> {str ''explain_image'', str ''explain_text'', str ''follow_up''}
        \<and> action_execution E s a = (Inr (Some r, f0), s1, ev) \<and> \<not> contains error_marker r
       \<longrightarrow> last_explanation (fst (processing_logic E s)) = clean_text_for_speech r
           \<and> (translated E s (clean_text_for_speech r) \<noteq> []
                \<and> \<not> contains error_marker (translated E s (clean_text_for_speech r))
               \<longrightarrow> filter is_speech_call (snd (processing_logic E s)) =
                     [SpeechCall (translated E s (clean_text_for_speech r)) (tts_lang_code s)]
                   \<and> current_audio_data (fst (processing_logic E s)) =
                       fst (generate_speech E (translated E s (clean_text_for_speech r))
                              (tts_lang_code s))
                   \<and> current_text_to_speak (fst (processing_logic E s)) =
                       (if truthy (fst (generate_speech E (translated E s (clean_text_for_speech r))
                                          (tts_lang_code s)))
                        then translated E s (clean_text_for_speech r)
                        else translated E s (clean_text_for_speech r) @ [10, 10]
                             @ str ''(Error generating audio for this text)'')))
   \<and> (processing s \<and> action_trigger s = Some (str ''read_image'') \<and> api_key_configured s
        \<and> action_execution E s (str ''read_image'') = (Inr (Some r, f0), s1, ev)
        \<and> \<not> contains error_marker r
       \<longrightarrow> last_explanation (fst (processing_logic E s)) = []
           \<and> (translated E s (join (str '' '') (split r)) \<noteq> []
                \<and> \<not> contains error_marker (translated E s (join (str '' '') (split r)))
               \<longrightarrow> filter is_speech_call (snd (processing_logic E s)) =
                     [SpeechCall (translated E s (join (str '' '') (split r))) (tts_lang_code s)]
                   \<and> current_audio_data (fst (processing_logic E s)) =
                       fst (generate_speech E (translated E s (join (str '' '') (split r)))
                              (tts_lang_code s))
                   \<and> current_text_to_speak (fst (processing_logic E s)) =
                       (if truthy (fst (generate_speech E (translated E s (join (str '' '') (split r)))
                                          (tts_lang_code s)))
                        then translated E s (join (str '' '') (split r))
                        else translated E s (join (str '' '') (split r)) @ [10, 10]
                             @ str ''(Error generating audio for this text)'')))"
proof -
  have 1: "\<exists>x. fst (get_gemini_response E s prompt img tin) = Inr x"
    by (simp add: adapter_result)
  have 2: "fst (configure_gemini E s) = Some m \<and> request_content E prompt img tin = Inr content
        \<and> generate_content E m content = Inr resp \<and> parts resp \<and> response_text resp = Inr t
       \<longrightarrow> fst (get_gemini_response E s prompt img tin) = Inr (strip t)"
    using adapter_success by blast
  have 3: "fst (configure_gemini E s) = Some m \<and> request_content E prompt img tin = Inr content
        \<and> (generate_content E m content = Inl e
             \<or> (generate_content E m content = Inr resp \<and> parts resp
                  \<and> response_text resp = Inl e))
       \<longrightarrow> fst (get_gemini_response E s prompt img tin) =
             Inr (str ''Error: Could not get response from AI during generation. Details: '' @ e)"
    using adapter_exception [of E s m prompt img tin content e resp] by blast
  have 4: "\<not> (\<exists>m content resp t. fst (configure_gemini E s) = Some m
                \<and> request_content E prompt img tin = Inr content
                \<and> generate_content E m content = Inr resp \<and> parts resp
                \<and> response_text resp = Inr t)
       \<longrightarrow> (\<exists>x. fst (get_gemini_response E s prompt img tin) = Inr x
                 \<and> startswith x error_marker)"
    using adapter_failure [of E s prompt img tin] by blast
  have 5: "processing s \<and> action_trigger s = Some a \<and> api_key_configured s
        \<and> a \<in> {str ''explain_image'', str ''explain_text'', str ''follow_up''}
        \<and> action_execution E s a = (Inr (Some r, f0), s1, ev) \<and> \<not> contains error_marker r
       \<longrightarrow> last_explanation (fst (processing_logic E s)) = clean_text_for_speech r
           \<and> (translated E s (clean_text_for_speech r) \<noteq> []
                \<and> \<not> contains error_marker (translated E s (clean_text_for_speech r))
               \<longrightarrow> filter is_speech_call (snd (processing_logic E s)) =
                     [SpeechCall (translated E s (clean_text_for_speech r)) (tts_lang_code s)]
                   \<and> current_audio_data (fst (processing_logic E s)) =
                       fst (generate_speech E (translated E s (clean_text_for_speech r))
                              (tts_lang_code s))
                   \<and> current_text_to_speak (fst (processing_logic E s)) =
                       (if truthy (fst (generate_speech E (translated E s (clean_text_for_speech r))
                                          (tts_lang_code s)))
                        then translated E s (clean_text_for_speech r)
                        else translated E s (clean_text_for_speech r) @ [10, 10]
                             @ str ''(Error generating audio for this text)''))"
    using turn_success_explain(1) [of s a E r f0 s1 ev]
      turn_success_explain(2) [of s a E r f0 s1 ev]
    by blast
  have 6: "processing s \<and> action_trigger s = Some (str ''read_image'') \<and> api_key_configured s
        \<and> action_execution E s (str ''read_image'') = (Inr (Some r, f0), s1, ev)
        \<and> \<not> contains error_marker r
       \<longrightarrow> last_explanation (fst (processing_logic E s)) = []
           \<and> (translated E s (join (str '' '') (split r)) \<noteq> []
                \<and> \<not> contains error_marker (translated E s (join (str '' '') (split r)))
               \<longrightarrow> filter is_speech_call (snd (processing_logic E s)) =
                     [SpeechCall (translated E s (join (str '' '') (split r))) (tts_lang_code s)]
                   \<and> current_audio_data (fst (processing_logic E s)) =
                       fst (generate_speech E (translated E s (join (str '' '') (split r)))
                              (tts_lang_code s))
                   \<and> current_text_to_speak (fst (processing_logic E s)) =
                       (if truthy (fst (generate_speech E (translated E s (join (str '' '') (split r)))
                                          (tts_lang_code s)))
                        then translated E s (join (str '' '') (split r))
                        else translated E s (join (str '' '') (split r)) @ [10, 10]
                             @ str ''(Error generating audio for this text)''))"
    using turn_success_read_image(1) [of s E r f0 s1 ev]
      turn_success_read_image(2) [of s E r f0 s1 ev]
    by blast
  from 1 2 3 4 5 6 show ?thesis by (intro conjI)
qed

text \<open>
  Two instances of the amended claim. The service answers \<open>2 + 2 = 4\<close>, with a space
  before and after, to an explain-text turn: the adapter returns the text without the
  two spaces, the sanitized text is stored and spoken. With a service that raises
  \<open>timeout\<close> the adapter returns the error text of line 230.
\<close>

theorem adapter_result_and_success_turn_witness:
  "fst (get_gemini_response (services_up (str '' 2 + 2 = 4 ''))
       (ready_session\<lparr>processing := True, action_trigger := Some (str ''explain_text''),
          pasted_text_area := str ''q''\<rparr>)
       EXPLAIN_PROMPT_BASE None (Some (str ''q''))) = Inr (str ''2 + 2 = 4'')
   \<and> fst (get_gemini_response services_down
       (ready_session\<lparr>processing := True, action_trigger := Some (str ''explain_text''),
          pasted_text_area := str ''q''\<rparr>)
       EXPLAIN_PROMPT_BASE None (Some (str ''q''))) =
       Inr (str ''Error: Could not get response from AI during generation. Details: timeout'')
   \<and> \<not> contains error_marker (str ''2 + 2 = 4'')
   \<and> last_explanation (fst (processing_logic (services_up (str '' 2 + 2 = 4 ''))
       (ready_session\<lparr>processing := True, action_trigger := Some (str ''explain_text''),
          pasted_text_area := str ''q''\<rparr>))) = str ''2 plus 2 equals 4''
   \<and> filter is_speech_call (snd (processing_logic (services_up (str '' 2 + 2 = 4 ''))
       (ready_session\<lparr>processing := True, action_trigger := Some (str ''explain_text''),
          pasted_text_area := str ''q''\<rparr>))) = [SpeechCall (str ''2 plus 2 equals 4'') (str ''en'')]
   \<and> current_audio_data (fst (processing_logic (services_up (str '' 2 + 2 = 4 ''))
       (ready_session\<lparr>processing := True, action_trigger := Some (str ''explain_text''),
          pasted_text_area := str ''q''\<rparr>))) = Some [73, 68, 51]
   \<and> current_text_to_speak (fst (processing_logic (services_up (str '' 2 + 2 = 4 ''))
       (ready_session\<lparr>processing := True, action_trigger := Some (str ''explain_text''),
          pasted_text_area := str ''q''\<rparr>))) = str ''2 plus 2 equals 4''"
proof -
  let ?s = "ready_session\<lparr>processing := True, action_trigger := Some (str ''explain_text''),
       pasted_text_area := str ''q''\<rparr>"
  let ?E = "services_up (str '' 2 + 2 = 4 '')"
  let ?m = "GenerativeModel (str ''gemini-2.0-flash'')"
  let ?content = "[PText EXPLAIN_PROMPT_BASE, PText (str ''q'')]"
  let ?resp = "\<lparr>parts = True, prompt_feedback = None, response_text = Inr (str '' 2 + 2 = 4 '')\<rparr>"
  let ?c = "str ''2 plus 2 equals 4''"
  have h: "processing ?s" "action_trigger ?s = Some (str ''explain_text'')" "api_key_configured ?s"
    "tts_lang_code ?s = str ''en''"
    by (simp_all add: ready_session_def default_values_def)
  have cfg: "fst (configure_gemini ?E ?s) = Some ?m" "fst (configure_gemini services_down ?s) = Some ?m"
    by (simp_all add: configure_gemini_def ready_session_def)
  have rc: "request_content ?E EXPLAIN_PROMPT_BASE None (Some (str ''q'')) = Inr ?content"
    "request_content services_down EXPLAIN_PROMPT_BASE None (Some (str ''q'')) = Inr ?content"
    by (simp_all add: request_content_def str_def)
  have gc: "generate_content ?E ?m ?content = Inr ?resp"
    "generate_content services_down ?m ?content = Inl (str ''timeout'')"
    by (simp_all add: services_up_def services_down_def)
  have rs: "parts ?resp" "response_text ?resp = Inr (str '' 2 + 2 = 4 '')"
    by simp_all
  have st: "strip (str '' 2 + 2 = 4 '') = str ''2 + 2 = 4''"
    by (simp add: strip_def str_def isspace_def)
  have a: "str ''explain_text'' \<in> {str ''explain_image'', str ''explain_text'', str ''follow_up''}"
    by simp
  have x: "action_execution ?E ?s (str ''explain_text'') =
      (Inr (Some (str ''2 + 2 = 4''), []), ?s, [GenerateCall ?content])"
    by (simp add: action_execution_def get_gemini_response_def configure_gemini_def
        gemini_try_def request_content_def generate_def classify_def services_up_def ready_session_def
        default_values_def strip_def str_def isspace_def)
  have m: "\<not> contains error_marker (str ''2 + 2 = 4'')"
    by (simp add: error_marker_def str_def)
  have c: "clean_text_for_speech (str ''2 + 2 = 4'') = ?c"
    by (simp add: clean_text_for_speech_def substitutions_def str_def split_def isspace_def)
  have t: "translate_if_needed ?E ?c (translate_lang_code ?s) (translate_lang_name ?s) = (?c, [])"
    by (simp add: translate_if_needed_def ready_session_def default_values_def)
  have n: "?c \<noteq> []" "\<not> contains error_marker ?c"
    by (simp_all add: error_marker_def str_def)
  have g: "fst (generate_speech ?E ?c (str ''en'')) = Some [73, 68, 51]"
    using n(1) by (simp add: generate_speech_def services_up_def)
  have up: "fst (get_gemini_response ?E ?s EXPLAIN_PROMPT_BASE None (Some (str ''q''))) =
        Inr (str ''2 + 2 = 4'')
      \<and> last_explanation (fst (processing_logic ?E ?s)) = ?c
      \<and> filter is_speech_call (snd (processing_logic ?E ?s)) = [SpeechCall ?c (str ''en'')]
      \<and> current_audio_data (fst (processing_logic ?E ?s)) = Some [73, 68, 51]
      \<and> current_text_to_speak (fst (processing_logic ?E ?s)) = ?c"
    using adapter_result_and_success_turn
      [where E = ?E and s = ?s and prompt = EXPLAIN_PROMPT_BASE and img = None
         and tin = "Some (str ''q'')" and m = ?m and content = ?content and resp = ?resp
         and t = "str '' 2 + 2 = 4 ''" and a = "str ''explain_text''" and r = "str ''2 + 2 = 4''"
         and ?f0.0 = "[]" and ?s1.0 = ?s and ev = "[GenerateCall ?content]"]
      h a x m c t n g cfg(1) rc(1) gc(1) rs st
    by simp
  have down: "fst (get_gemini_response services_down ?s EXPLAIN_PROMPT_BASE None (Some (str ''q''))) =
        Inr (str ''Error: Could not get response from AI during generation. Details: timeout'')"
    using adapter_result_and_success_turn
      [where E = services_down and s = ?s and prompt = EXPLAIN_PROMPT_BASE and img = None
         and tin = "Some (str ''q'')" and m = ?m and content = ?content and e = "str ''timeout''"]
      cfg(2) rc(2) gc(2)
    by (simp add: str_def)
  from up down m show ?thesis by simp
qed

text \<open>
  The claim as stated fails where the model's answer has \<open>Error:\<close> inside but not at
  its start: the adapter returns the answer as a success, it does not begin with the
  marker, and the orchestrator still takes it for an error. The stored explanation is
  not replaced, the text is shown as it came (the sanitizer would have spelled out the
  equals sign) and the speech service is not called.
\<close>

theorem marker_inside_counts_as_error:
  "fst (get_gemini_response (services_up (str ''x = Error: y''))
       (ready_session\<lparr>processing := True, action_trigger := Some (str ''explain_text''),
          pasted_text_area := str ''q'', last_explanation := str ''old''\<rparr>)
       EXPLAIN_PROMPT_BASE None (Some (str ''q''))) = Inr (str ''x = Error: y'')
   \<and> \<not> startswith (str ''x = Error: y'') error_marker
   \<and> clean_text_for_speech (str ''x = Error: y'') = str ''x equals Error: y''
   \<and> last_explanation (fst (processing_logic (services_up (str ''x = Error: y''))
       (ready_session\<lparr>processing := True, action_trigger := Some (str ''explain_text''),
          pasted_text_area := str ''q'', last_explanation := str ''old''\<rparr>))) = str ''old''
   \<and> current_text_to_speak (fst (processing_logic (services_up (str ''x = Error: y''))
       (ready_session\<lparr>processing := True, action_trigger := Some (str ''explain_text''),
          pasted_text_area := str ''q'', last_explanation := str ''old''\<rparr>))) = str ''x = Error: y''
   \<and> current_audio_data (fst (processing_logic (services_up (str ''x = Error: y''))
       (ready_session\<lparr>processing := True, action_trigger := Some (str ''explain_text''),
          pasted_text_area := str ''q'', last_explanation := str ''old''\<rparr>))) = None
   \<and> filter is_speech_call (snd (processing_logic (services_up (str ''x = Error: y''))
       (ready_session\<lparr>processing := True, action_trigger := Some (str ''explain_text''),
          pasted_text_area := str ''q'', last_explanation := str ''old''\<rparr>))) = []"
proof -
  let ?s = "ready_session\<lparr>processing := True, action_trigger := Some (str ''explain_text''),
          pasted_text_area := str ''q'', last_explanation := str ''old''\<rparr>"
  let ?E = "services_up (str ''x = Error: y'')"
  have g: "get_gemini_response ?E ?s EXPLAIN_PROMPT_BASE None (Some (str ''q'')) =
      (Inr (str ''x = Error: y''), ?s, [GenerateCall [PText EXPLAIN_PROMPT_BASE, PText (str ''q'')]])"
    by (simp add: get_gemini_response_def configure_gemini_def gemini_try_def request_content_def generate_def
        classify_def services_up_def ready_session_def default_values_def strip_def str_def
        isspace_def)
  have x: "action_execution ?E ?s (str ''explain_text'') =
      (Inr (Some (str ''x = Error: y''), []), ?s,
       [GenerateCall [PText EXPLAIN_PROMPT_BASE, PText (str ''q'')]])"
    by (simp add: action_execution_def g) (simp add: str_def)
  have m: "contains error_marker (str ''x = Error: y'')"
    "\<not> startswith (str ''x = Error: y'') error_marker"
    by (simp_all add: error_marker_def str_def)
  have c: "clean_text_for_speech (str ''x = Error: y'') = str ''x equals Error: y''"
    by (simp add: clean_text_for_speech_def substitutions_def str_def split_def isspace_def)
  have h: "processing ?s" "action_trigger ?s = Some (str ''explain_text'')" "api_key_configured ?s"
    by (simp_all add: ready_session_def default_values_def)
  have a: "str ''explain_text'' \<noteq> ([]::pystr)" by (simp add: str_def)
  have p: "processing_logic ?E ?s =
      (finally_block (?s\<lparr>current_text_to_speak := str ''x = Error: y'', current_audio_data := None\<rparr>),
       [GenerateCall [PText EXPLAIN_PROMPT_BASE, PText (str ''q'')]])"
    by (simp add: turn_after_execution [OF h(1) h(2) a h(3) x] process_marker [OF m(1)]
        generate_audio_marker [OF m(1)])
  show ?thesis using g m(2) c by (simp add: p finally_fields)
qed

section \<open>Configuring the model again and again\<close>

lemma configure_failing:
  assumes "usable_key E" "setup_fails E" "unconfigured s"
  shows "fst (configure_gemini E s) = None
         \<and> snd (snd (configure_gemini E s)) = [attempt E]
         \<and> unconfigured (fst (snd (configure_gemini E s)))"
  using assms
  by (auto simp: configure_gemini_def usable_key_def setup_fails_def unconfigured_def
      attempt_def Let_def split: option.splits sum.splits bool.splits)

lemma configure_calls_failing:
  "list_all (\<lambda>E. usable_key E \<and> setup_fails E) Es \<Longrightarrow> unconfigured s
     \<Longrightarrow> snd (configure_calls Es s) = map attempt Es
         \<and> unconfigured (fst (configure_calls Es s))"
proof (induction Es arbitrary: s)
  case Nil
  then show ?case by simp
next
  case (Cons E Es)
  then have f: "snd (snd (configure_gemini E s)) = [attempt E]"
    "unconfigured (fst (snd (configure_gemini E s)))"
    using configure_failing [of E s] by simp_all
  from Cons.IH [OF _ f(2)] Cons.prems(1) f(1) show ?case
    by (simp add: case_prod_unfold)
qed

lemma configure_success_state:
  assumes "fst (configure_gemini E s) = Some m"
  shows "gemini_model (fst (snd (configure_gemini E s))) = Some m
         \<and> api_key_configured (fst (snd (configure_gemini E s)))"
  using assms
  by (auto simp: configure_gemini_def Let_def split: option.splits sum.splits bool.splits if_splits)

lemma configure_when_cached:
  assumes "gemini_model s = Some m" "api_key_configured s"
  shows "configure_gemini E s = (Some m, s, [])"
  using assms by (simp add: configure_gemini_def)

lemma configure_cached:
  assumes "fst (configure_gemini E s) = Some m"
  shows "configure_gemini E' (fst (snd (configure_gemini E s))) =
           (Some m, fst (snd (configure_gemini E s)), [])"
  using configure_success_state [OF assms] by (simp add: configure_when_cached)

lemma configure_without_key:
  assumes "\<not> usable_key E"
  shows "snd (snd (configure_gemini E s)) = []"
  using assms
  by (auto simp: configure_gemini_def usable_key_def Let_def split: option.splits bool.splits)

text \<open>
  C4 (amended). The adapter remembers a success only. While no configuration has
  succeeded, every call of \<open>configure_gemini\<close> with a key that is present and not the
  placeholder makes a new configuration attempt, also right after a failed one and
  with the same key: a run of failing calls makes one attempt per call. After a
  success the cached model is returned and no attempt is made, whatever the key is;
  without a usable key no attempt is made.
\<close>

theorem configure_retries_until_success:
  "(unconfigured s \<and> list_all (\<lambda>E. usable_key E \<and> setup_fails E) Es
      \<longrightarrow> snd (configure_calls Es s) = map attempt Es
          \<and> unconfigured (fst (configure_calls Es s)))
   \<and> (fst (configure_gemini E s) = Some m
      \<longrightarrow> configure_gemini E' (fst (snd (configure_gemini E s))) =
            (Some m, fst (snd (configure_gemini E s)), []))
   \<and> (\<not> usable_key E \<longrightarrow> snd (snd (configure_gemini E s)) = [])"
  using configure_calls_failing [of Es s] configure_cached [of E s m E']
    configure_without_key [of E s]
  by blast

theorem configure_retries_witness:
  "unconfigured default_values \<and> usable_key services_down \<and> setup_fails services_down
   \<and> snd (configure_calls [services_down, services_down, services_down] default_values) =
       [ConfigureCall (str ''key''), ConfigureCall (str ''key''), ConfigureCall (str ''key'')]"
proof -
  have u: "unconfigured default_values"
    by (simp add: unconfigured_def default_values_def)
  have k: "usable_key services_down" "setup_fails services_down"
    by (simp_all add: usable_key_def setup_fails_def services_down_def str_def)
  have a: "attempt services_down = ConfigureCall (str ''key'')"
    by (simp add: attempt_def services_down_def)
  show ?thesis
    using configure_retries_until_success
      [of default_values "[services_down, services_down, services_down]"] u k a
    by simp
qed

text \<open>
  The claim as stated fails on two calls with the same key and a service that refuses
  it: the first call fails after one attempt, and the second call attempts again.
\<close>

theorem second_call_attempts_again:
  "GOOGLE_API_KEY services_down = Some (str ''key'')
   \<and> fst (configure_gemini services_down default_values) = None
   \<and> snd (snd (configure_gemini services_down default_values)) = [ConfigureCall (str ''key'')]
   \<and> snd (snd (configure_gemini services_down
             (fst (snd (configure_gemini services_down default_values))))) =
       [ConfigureCall (str ''key'')]"
  by (simp add: configure_gemini_def services_down_def default_values_def str_def)

section \<open>Translation\<close>

lemma translate_chunks_fails:
  "list_ex (\<lambda>(i, chunk). isl (tr i chunk)) (enumerate i chs)
     \<Longrightarrow> isl (fst (translate_chunks tr target i chs acc))"
  by (induction chs arbitrary: i acc) (auto simp: case_prod_unfold split: sum.splits)

lemma translation_failure_passthrough:
  assumes "translation_fails E target tin"
  shows "fst (translate_if_needed E tin (Some target) name) = tin"
proof (cases "google_translator E target")
  case (Inl e)
  then show ?thesis by (simp add: translate_if_needed_def)
next
  case (Inr tr)
  with assms have "isl (fst (translate_chunks tr target 0 (slices 4500 tin) []))"
    by (simp add: translation_fails_def translate_chunks_fails)
  then obtain e ev where "translate_chunks tr target 0 (slices 4500 tin) [] = (Inl e, ev)"
    by (cases "translate_chunks tr target 0 (slices 4500 tin) []") (auto simp: isl_def)
  with Inr show ?thesis by (simp add: translate_if_needed_def)
qed

lemma slices_step: "xs \<noteq> [] \<Longrightarrow> n \<noteq> 0 \<Longrightarrow> slices n xs = take n xs # slices n (drop n xs)"
  by (cases xs) simp_all

lemma turn_read_text_speaks:
  assumes "processing s" "action_trigger s = Some (str ''read_text'')" "api_key_configured s"
    and "translated E s (join (str '' '') (split (pasted_text_area s))) \<noteq> []"
    and "\<not> contains error_marker (translated E s (join (str '' '') (split (pasted_text_area s))))"
  shows "filter is_speech_call (snd (processing_logic E s)) =
           [SpeechCall (translated E s (join (str '' '') (split (pasted_text_area s)))) (tts_lang_code s)]"
proof -
  let ?c = "join (str '' '') (split (pasted_text_area s))"
  have p: "pasted_text_area s \<noteq> []"
  proof
    assume "pasted_text_area s = []"
    then show False using assms(4) by (simp add: split_def translate_empty)
  qed
  have pl: "processing_logic E s =
      (case generate_audio E (s\<lparr>last_explanation := []\<rparr>) (translated E s ?c) of
         (s3, ev3) \<Rightarrow>
           (finally_block s3,
            snd (translate_if_needed E ?c (translate_lang_code s) (translate_lang_name s)) @ ev3))"
    by (simp add: turn_read_text [OF assms(1) assms(2) assms(3) p] case_prod_unfold)
  have e: "filter is_speech_call
      (snd (translate_if_needed E ?c (translate_lang_code s) (translate_lang_name s))) = []"
    using translate_events by simp
  from audio_step [OF assms(4) assms(5) e pl] show ?thesis by simp
qed

lemma turn_read_text_marker:
  assumes "processing s" "action_trigger s = Some (str ''read_text'')" "api_key_configured s"
    and "contains error_marker (translated E s (join (str '' '') (split (pasted_text_area s))))"
  shows "filter is_speech_call (snd (processing_logic E s)) = []
         \<and> current_audio_data (fst (processing_logic E s)) = None
         \<and> current_text_to_speak (fst (processing_logic E s)) =
             translated E s (join (str '' '') (split (pasted_text_area s)))"
proof -
  have "pasted_text_area s \<noteq> []"
  proof
    assume "pasted_text_area s = []"
    then show False
      using assms(4) error_marker_nonempty by (simp add: split_def translate_empty)
  qed
  then show ?thesis
    using assms translate_events
    by (simp add: turn_read_text case_prod_unfold generate_audio_marker finally_fields)
qed

text \<open>
  C6 (amended). When the translation service fails on a text, at the construction of
  the translator or at any call of the loop, also after earlier chunks were translated,
  \<open>translate_if_needed\<close> returns the text it was given. The turn goes on with that
  text: in a read-text, read-image, explain or follow-up turn whose text is not empty
  and has no \<open>Error:\<close> in it, the speech service is called on the untranslated text.
  In a read-text turn whose text has \<open>Error:\<close> in it, the speech service is not
  called: the untranslated text is shown and no audio is stored.
\<close>

theorem translation_failure_keeps_original:
  "(translation_fails E target tin \<longrightarrow> fst (translate_if_needed E tin (Some target) name) = tin)
   \<and> (processing s \<and> action_trigger s = Some (str ''read_text'') \<and> api_key_configured s
        \<and> translate_lang_code s = Some target
        \<and> translation_fails E target (join (str '' '') (split (pasted_text_area s)))
        \<and> join (str '' '') (split (pasted_text_area s)) \<noteq> []
        \<and> \<not> contains error_marker (join (str '' '') (split (pasted_text_area s)))
       \<longrightarrow> filter is_speech_call (snd (processing_logic E s)) =
             [SpeechCall (join (str '' '') (split (pasted_text_area s))) (tts_lang_code s)])
   \<and> (processing s \<and> action_trigger s = Some a \<and> api_key_configured s
        \<and> a \<in> {str ''explain_image'', str ''explain_text'', str ''follow_up''}
        \<and> action_execution E s a = (Inr (Some r, f0), s1, ev) \<and> \<not> contains error_marker r
        \<and> translate_lang_code s = Some target
        \<and> translation_fails E target (clean_text_for_speech r)
        \<and> clean_text_for_speech r \<noteq> []
        \<and> \<not> contains error_marker (clean_text_for_speech r)
       \<longrightarrow> filter is_speech_call (snd (processing_logic E s)) =
             [SpeechCall (clean_text_for_speech r) (tts_lang_code s)])
   \<and> (processing s \<and> action_trigger s = Some (str ''read_image'') \<and> api_key_configured s
        \<and> action_execution E s (str ''read_image'') = (Inr (Some r, f0), s1, ev)
        \<and> \<not> contains error_marker r
        \<and> translate_lang_code s = Some target
        \<and> translation_fails E target (join (str '' '') (split r))
        \<and> join (str '' '') (split r) \<noteq> []
        \<and> \<not> contains error_marker (join (str '' '') (split r))
       \<longrightarrow> filter is_speech_call (snd (processing_logic E s)) =
             [SpeechCall (join (str '' '') (split r)) (tts_lang_code s)])
   \<and> (processing s \<and> action_trigger s = Some (str ''read_text'') \<and> api_key_configured s
        \<and> translate_lang_code s = Some target
        \<and> translation_fails E target (join (str '' '') (split (pasted_text_area s)))
        \<and> contains error_marker (join (str '' '') (split (pasted_text_area s)))
       \<longrightarrow> filter is_speech_call (snd (processing_logic E s)) = []
           \<and> current_audio_data (fst (processing_logic E s)) = None
           \<and> current_text_to_speak (fst (processing_logic E s)) =
               join (str '' '') (split (pasted_text_area s)))"
proof (intro conjI impI)
  assume "translation_fails E target tin"
  then show "fst (translate_if_needed E tin (Some target) name) = tin"
    by (rule translation_failure_passthrough)
next
  let ?c = "join (str '' '') (split (pasted_text_area s))"
  assume h: "processing s \<and> action_trigger s = Some (str ''read_text'') \<and> api_key_configured s
        \<and> translate_lang_code s = Some target \<and> translation_fails E target ?c
        \<and> ?c \<noteq> [] \<and> \<not> contains error_marker ?c"
  then have "translated E s ?c = ?c"
    using translation_failure_passthrough [of E target ?c "translate_lang_name s"] by simp
  then show "filter is_speech_call (snd (processing_logic E s)) = [SpeechCall ?c (tts_lang_code s)]"
    using h turn_read_text_speaks [of s E] by simp
next
  let ?c = "clean_text_for_speech r"
  assume h: "processing s \<and> action_trigger s = Some a \<and> api_key_configured s
        \<and> a \<in> {str ''explain_image'', str ''explain_text'', str ''follow_up''}
        \<and> action_execution E s a = (Inr (Some r, f0), s1, ev) \<and> \<not> contains error_marker r
        \<and> translate_lang_code s = Some target \<and> translation_fails E target ?c
        \<and> ?c \<noteq> [] \<and> \<not> contains error_marker ?c"
  then have "translated E s ?c = ?c"
    using translation_failure_passthrough [of E target ?c "translate_lang_name s"] by simp
  then show "filter is_speech_call (snd (processing_logic E s)) = [SpeechCall ?c (tts_lang_code s)]"
    using h turn_success_explain(2) [of s a E r f0 s1 ev] by simp
next
  let ?c = "join (str '' '') (split r)"
  assume h: "processing s \<and> action_trigger s = Some (str ''read_image'') \<and> api_key_configured s
        \<and> action_execution E s (str ''read_image'') = (Inr (Some r, f0), s1, ev)
        \<and> \<not> contains error_marker r
        \<and> translate_lang_code s = Some target \<and> translation_fails E target ?c
        \<and> ?c \<noteq> [] \<and> \<not> contains error_marker ?c"
  then have "translated E s ?c = ?c"
    using translation_failure_passthrough [of E target ?c "translate_lang_name s"] by simp
  then show "filter is_speech_call (snd (processing_logic E s)) = [SpeechCall ?c (tts_lang_code s)]"
    using h turn_success_read_image(2) [of s E r f0 s1 ev] by simp
next
  let ?c = "join (str '' '') (split (pasted_text_area s))"
  assume h: "processing s \<and> action_trigger s = Some (str ''read_text'') \<and> api_key_configured s
        \<and> translate_lang_code s = Some target \<and> translation_fails E target ?c
        \<and> contains error_marker ?c"
  then have "translated E s ?c = ?c"
    using translation_failure_passthrough [of E target ?c "translate_lang_name s"] by simp
  then show "filter is_speech_call (snd (processing_logic E s)) = []"
    and "current_audio_data (fst (processing_logic E s)) = None"
    and "current_text_to_speak (fst (processing_logic E s)) = ?c"
    using h turn_read_text_marker [of s E] by simp_all
qed

text \<open>
  Two instances. A text of 4501 characters makes two chunks, and the service raises on
  the second call: the text comes back as it was. In a read-text turn on the pasted
  text \<open>hola  mundo\<close> with the target \<open>es\<close> and a translator that raises on every
  call, the speech service is called on \<open>hola mundo\<close>.
\<close>

theorem translation_failure_witness:
  "slices 4500 (replicate 4500 97 @ [98::nat]) = [replicate 4500 97, [98]]
   \<and> translation_fails services_quota (str ''es'') (replicate 4500 97 @ [98])
   \<and> fst (translate_if_needed services_quota (replicate 4500 97 @ [98]) (Some (str ''es''))
            (str ''Spanish'')) = replicate 4500 97 @ [98]
   \<and> translation_fails translator_down (str ''es'') (str ''hola mundo'')
   \<and> filter is_speech_call (snd (processing_logic translator_down
       (ready_session\<lparr>processing := True, action_trigger := Some (str ''read_text''),
          pasted_text_area := str ''hola  mundo'', translate_lang_code := Some (str ''es''),
          translate_lang_name := str ''Spanish''\<rparr>))) = [SpeechCall (str ''hola mundo'') (str ''en'')]"
proof -
  let ?s = "ready_session\<lparr>processing := True, action_trigger := Some (str ''read_text''),
          pasted_text_area := str ''hola  mundo'', translate_lang_code := Some (str ''es''),
          translate_lang_name := str ''Spanish''\<rparr>"
  have "slices 4500 (replicate 4500 97 @ [98::nat]) = replicate 4500 97 # slices 4500 [98]"
    by (subst slices_step) simp_all
  then have sl: "slices 4500 (replicate 4500 97 @ [98::nat]) = [replicate 4500 97, [98]]"
    by simp
  have f: "translation_fails services_quota (str ''es'') (replicate 4500 97 @ [98])"
    by (simp add: translation_fails_def services_quota_def sl)
  have one: "fst (translate_if_needed services_quota (replicate 4500 97 @ [98]) (Some (str ''es''))
            (str ''Spanish'')) = replicate 4500 97 @ [98]"
    using translation_failure_keeps_original
      [of services_quota "str ''es''" "replicate 4500 97 @ [98]" "str ''Spanish''"] f
    by simp
  have h: "processing ?s" "action_trigger ?s = Some (str ''read_text'')" "api_key_configured ?s"
    "translate_lang_code ?s = Some (str ''es'')" "tts_lang_code ?s = str ''en''"
    by (simp_all add: ready_session_def default_values_def)
  have j: "join (str '' '') (split (pasted_text_area ?s)) = str ''hola mundo''"
    by (simp add: split_def str_def isspace_def)
  have "slices 4500 (str ''hola mundo'') = [str ''hola mundo'']"
    by (subst slices_step) (simp_all add: str_def)
  then have d: "translation_fails translator_down (str ''es'') (str ''hola mundo'')"
    by (simp add: translation_fails_def translator_down_def)
  have n: "str ''hola mundo'' \<noteq> []" "\<not> contains error_marker (str ''hola mundo'')"
    by (simp_all add: error_marker_def str_def)
  have two: "filter is_speech_call (snd (processing_logic translator_down ?s)) =
      [SpeechCall (str ''hola mundo'') (str ''en'')]"
    using translation_failure_keeps_original [where E = translator_down and s = ?s
        and target = "str ''es''"] h j d n
    by simp
  from sl f one d two show ?thesis by simp
qed

text \<open>
  The claim as stated fails on a text that has \<open>Error:\<close> in it: the pasted text
  \<open>Error: disk full\<close> is read with the target \<open>es\<close> while the translator raises on
  every call. The translation fails and returns the text as it was, and the turn does
  not go on to the speech service: no call, no audio, the text is shown.
\<close>

theorem translation_failure_marker_text_not_spoken:
  "translation_fails translator_down (str ''es'') (str ''Error: disk full'')
   \<and> fst (translate_if_needed translator_down (str ''Error: disk full'') (Some (str ''es''))
            (str ''Spanish'')) = str ''Error: disk full''
   \<and> filter is_speech_call (snd (processing_logic translator_down
       (ready_session\<lparr>processing := True, action_trigger := Some (str ''read_text''),
          pasted_text_area := str ''Error: disk full'', translate_lang_code := Some (str ''es''),
          translate_lang_name := str ''Spanish''\<rparr>))) = []
   \<and> current_audio_data (fst (processing_logic translator_down
       (ready_session\<lparr>processing := True, action_trigger := Some (str ''read_text''),
          pasted_text_area := str ''Error: disk full'', translate_lang_code := Some (str ''es''),
          translate_lang_name := str ''Spanish''\<rparr>))) = None
   \<and> current_text_to_speak (fst (processing_logic translator_down
       (ready_session\<lparr>processing := True, action_trigger := Some (str ''read_text''),
          pasted_text_area := str ''Error: disk full'', translate_lang_code := Some (str ''es''),
          translate_lang_name := str ''Spanish''\<rparr>))) = str ''Error: disk full''"
proof -
  let ?s = "ready_session\<lparr>processing := True, action_trigger := Some (str ''read_text''),
          pasted_text_area := str ''Error: disk full'', translate_lang_code := Some (str ''es''),
          translate_lang_name := str ''Spanish''\<rparr>"
  let ?c = "str ''Error: disk full''"
  have h: "processing ?s" "action_trigger ?s = Some (str ''read_text'')" "api_key_configured ?s"
    by (simp_all add: ready_session_def default_values_def)
  have j: "join (str '' '') (split (pasted_text_area ?s)) = ?c"
    by (simp add: split_def str_def isspace_def)
  have "slices 4500 ?c = [?c]"
    by (subst slices_step) (simp_all add: str_def)
  then have d: "translation_fails translator_down (str ''es'') ?c"
    by (simp add: translation_fails_def translator_down_def)
  have t: "translated translator_down ?s ?c = ?c"
    using translation_failure_passthrough [OF d, of "str ''Spanish''"] by simp
  have m: "contains error_marker ?c"
    by (simp add: error_marker_def str_def)
  have "filter is_speech_call (snd (processing_logic translator_down ?s)) = []
      \<and> current_audio_data (fst (processing_logic translator_down ?s)) = None
      \<and> current_text_to_speak (fst (processing_logic translator_down ?s)) = ?c"
    using turn_read_text_marker [OF h, of translator_down] j t m by simp
  with d t show ?thesis by simp
qed

text \<open>
  C2. With the target code \<open>en\<close>, which the menu offers as English, the text is returned
  as it is and the translation service is not called, whatever the text. With each
  other code of the menu (\<open>te\<close>, \<open>hi\<close>, \<open>es\<close>, \<open>fr\<close>, \<open>de\<close>), a text that is not empty
  and a translator that can be constructed, the first chunk is sent to the service.
\<close>

theorem english_target_is_not_translated:
  "translate_if_needed E tin (Some (str ''en'')) name = (tin, [])
   \<and> (target \<in> {str ''te'', str ''hi'', str ''es'', str ''fr'', str ''de''} \<and> tin \<noteq> []
        \<and> google_translator E target = Inr tr
       \<longrightarrow> (\<exists>ev. snd (translate_if_needed E tin (Some target) name) =
                  TranslateCall target (take 4500 tin) # ev))"
proof (intro conjI impI)
  show "translate_if_needed E tin (Some (str ''en'')) name = (tin, [])"
    by (simp add: translate_if_needed_def)
next
  assume h: "target \<in> {str ''te'', str ''hi'', str ''es'', str ''fr'', str ''de''} \<and> tin \<noteq> []
        \<and> google_translator E target = Inr tr"
  then have t: "target \<noteq> []" "target \<noteq> str ''en''" by (auto simp: str_def)
  from h have sl: "slices 4500 tin = take 4500 tin # slices 4500 (drop 4500 tin)"
    by (simp add: slices_step)
  show "\<exists>ev. snd (translate_if_needed E tin (Some target) name) =
                  TranslateCall target (take 4500 tin) # ev"
    using h t
    by (auto simp: translate_if_needed_def sl case_prod_unfold split: sum.splits)
qed

theorem english_target_witness:
  "translate_if_needed (services_up []) (str ''Hola mundo'') (Some (str ''en'')) (str ''English'')
     = (str ''Hola mundo'', [])
   \<and> snd (translate_if_needed (services_up []) (str ''Hola mundo'') (Some (str ''es''))
            (str ''Spanish'')) = [TranslateCall (str ''es'') (str ''Hola mundo'')]"
proof -
  have e: "snd (translate_if_needed (services_up []) (str ''Hola mundo'') (Some (str ''es''))
            (str ''Spanish'')) = [TranslateCall (str ''es'') (str ''Hola mundo'')]"
    by (simp add: translate_if_needed_def services_up_def str_def)
  from english_target_is_not_translated
    [of "services_up []" "str ''Hola mundo''" "str ''English''"] e
  show ?thesis by simp
qed

end
